theory Spec2Isabelle
  imports Main
begin

section \<open>Exceptions\<close>

text \<open>
  The scripts are JavaScript. Every \<^verbatim>\<open>throw\<close> that matters below is one of the
  built-in error kinds; a function that can throw returns \<open>exn + 'a\<close>, with
  \<open>Inl\<close> the exception, and a \<^verbatim>\<open>try { } catch { }\<close> of the source is a case
  distinction on that sum.
\<close>

datatype exn =
  ReferenceError | TypeError | RangeError | SyntaxError | SecurityError | QuotaExceededError

section \<open>Progressive scroll (assets/js/main.js, setupProgressiveScroll)\<close>

text \<open>
  \<^verbatim>\<open>setupProgressiveScroll(container, startOffset)\<close> keeps four local variables and a
  loading indicator; the closure \<^verbatim>\<open>loadMoreContent\<close> reads and writes them. The
  cursor record holds those variables, the visibility of the indicator, and the cards
  that were inserted into the container in front of the indicator.
\<close>

record 'c cursor =
  isLoading :: bool
  hasMoreData :: bool
  currentOffset :: nat
  indicatorShown :: bool
  cards :: "'c list"

text \<open>\<^verbatim>\<open>Array.prototype.slice(b, e)\<close> for integers \<open>0 \<le> b\<close>.\<close>

definition slice :: "'a list \<Rightarrow> nat \<Rightarrow> nat \<Rightarrow> 'a list" where
  "slice xs b e = take (e - b) (drop b xs)"

text \<open>
  The \<^verbatim>\<open>forEach\<close> over the batch. An entry of the array is an object (\<open>Some\<close>) or
  \<^verbatim>\<open>null\<close> (\<open>None\<close>). \<^verbatim>\<open>createEnhancedMangaCard\<close> is a parameter for the objects: it
  may throw, and then the inner \<^verbatim>\<open>catch\<close> logs the entry's title and the loop goes on,
  or it may yield markup without an element (\<open>None\<close>: nothing is inserted). On a
  \<^verbatim>\<open>null\<close> entry \<^verbatim>\<open>createEnhancedMangaCard\<close> throws a \<^verbatim>\<open>TypeError\<close> at its first
  statement (\<^verbatim>\<open>manga.rating\<close>), and the handler of the inner \<^verbatim>\<open>catch\<close> throws another
  one when it reads \<^verbatim>\<open>manga.title\<close> for its message: that exception leaves the loop.
  The result is the exception, if any, and the cards in the container at that moment.
\<close>

fun insertCards ::
  "('a \<Rightarrow> exn + 'c option) \<Rightarrow> 'a option list \<Rightarrow> 'c list \<Rightarrow> exn option \<times> 'c list" where
  "insertCards createEnhancedMangaCard [] container = (None, container)"
| "insertCards createEnhancedMangaCard (manga # rest) container =
     (case manga of
        None \<Rightarrow> (Some TypeError, container)
      | Some m \<Rightarrow>
          insertCards createEnhancedMangaCard rest
            (case createEnhancedMangaCard m of
               Inl error \<Rightarrow> container
             | Inr None \<Rightarrow> container
             | Inr (Some element) \<Rightarrow> container @ [element]))"

text \<open>
  One call of \<^verbatim>\<open>loadMoreContent\<close>. \<open>allData\<close> is \<^verbatim>\<open>window.allMangaData || []\<close>, an
  array. The result pairs the local \<^verbatim>\<open>nextBatch\<close> (empty when the guard returns at
  once) with the variables after the call. The function has no \<^verbatim>\<open>await\<close>, so it runs
  to its \<^verbatim>\<open>finally\<close> in one piece: \<open>isLoading\<close> is set on entry and cleared again
  before the call returns. An exception that leaves the loop is caught by the outer
  \<^verbatim>\<open>catch\<close>: \<open>hasMoreData\<close> is cleared and the indicator hidden, the offset is not
  advanced, and the cards inserted before the exception stay.
\<close>

definition loadMoreContent ::
  "('a \<Rightarrow> exn + 'c option) \<Rightarrow> 'a option list \<Rightarrow> 'c cursor
   \<Rightarrow> 'a option list \<times> 'c cursor" where
  "loadMoreContent createEnhancedMangaCard allData s =
     (if isLoading s \<or> \<not> hasMoreData s then ([], s)
      else
        let nextBatch = slice allData (currentOffset s) (currentOffset s + 20) in
        if length nextBatch > 0 then
          (case insertCards createEnhancedMangaCard nextBatch (cards s) of
             (None, container) \<Rightarrow>
               let offset' = currentOffset s + length nextBatch;
                   more = (offset' < length allData)
               in (nextBatch,
                   s\<lparr>isLoading := False, hasMoreData := more, currentOffset := offset',
                     indicatorShown := more, cards := container\<rparr>)
           | (Some error, container) \<Rightarrow>
               (nextBatch,
                s\<lparr>isLoading := False, hasMoreData := False, indicatorShown := False,
                  cards := container\<rparr>))
        else
          (nextBatch, s\<lparr>isLoading := False, hasMoreData := False, indicatorShown := False\<rparr>))"

text \<open>The variables as \<^verbatim>\<open>setupProgressiveScroll\<close> initialises them.\<close>

definition setupProgressiveScroll :: "'c list \<Rightarrow> nat \<Rightarrow> 'c cursor" where
  "setupProgressiveScroll container startOffset =
     \<lparr>isLoading = False, hasMoreData = True, currentOffset = startOffset,
      indicatorShown = False, cards = container\<rparr>"




section \<open>Reader page: chapter navigation (assets/js/main.js, handleReaderPage)\<close>

text \<open>
  A chapter of the list kept in \<^verbatim>\<open>sessionStorage\<close> under
  \<^verbatim>\<open>current_manga_chapters\<close>: the fields the reader page uses.
\<close>

record chapter_ref =
  chapter_title :: string
  chapter_url :: string

text \<open>
  What a container shows after \<^verbatim>\<open>showLoadingState\<close>, \<^verbatim>\<open>showErrorState\<close>,
  \<^verbatim>\<open>showEmptyState\<close>, a one-line notice, or after elements were put into it.
\<close>

datatype ('e, 'm) container =
    LoadingState 'm
  | ErrorState 'm
  | EmptyState 'm
  | Notice 'm
  | Elements "'e list"

text \<open>
  A previous/next control after \<^verbatim>\<open>updateChapterNavigation\<close>: either enabled, visible
  and linked to \<^verbatim>\<open>reader.html?url=<url>&source=<source>\<close>, or disabled and hidden.
\<close>

datatype nav_button = Enabled string string | Hidden

text \<open>
  The parts of the reader page that the navigation step writes. An element that the
  document does not have is \<open>None\<close> (\<^verbatim>\<open>getElementById\<close> gave \<^verbatim>\<open>null\<close>); the step
  guards every write with \<^verbatim>\<open>if (element)\<close>.
\<close>

datatype reader_message = LoadingChapter | NoChapterImagesFound | FailedToLoadChapter exn

record 'e reader_page =
  document_title :: string
  reader_title :: "string option"
  prev_chapter_header :: "nav_button option"
  next_chapter_header :: "nav_button option"
  prev_chapter_footer :: "nav_button option"
  next_chapter_footer :: "nav_button option"
  end_of_chapter_nav :: "bool option"
  reader_content :: "('e, reader_message) container"

text \<open>\<^verbatim>\<open>Array.prototype.findIndex\<close>: the first position that satisfies the test; \<open>None\<close> is \<open>-1\<close>.\<close>

fun findIndex :: "('a \<Rightarrow> bool) \<Rightarrow> 'a list \<Rightarrow> nat option" where
  "findIndex p [] = None"
| "findIndex p (x # xs) =
     (if p x then Some 0 else (case findIndex p xs of None \<Rightarrow> None | Some i \<Rightarrow> Some (Suc i)))"

text \<open>
  One control of \<^verbatim>\<open>updateChapterNavigation\<close>. The URL argument is \<^verbatim>\<open>chapter?.url\<close>:
  \<open>None\<close> when there is no chapter, and an empty string is falsy as well.
\<close>

definition setButton :: "nav_button option \<Rightarrow> string option \<Rightarrow> string \<Rightarrow> nav_button option" where
  "setButton element url source =
     (case element of
        None \<Rightarrow> None
      | Some b \<Rightarrow> (case url of
                    None \<Rightarrow> Some Hidden
                  | Some u \<Rightarrow> if u = [] then Some Hidden else Some (Enabled u source)))"

definition updateChapterNavigation ::
  "nav_button option \<times> nav_button option \<Rightarrow> string option \<Rightarrow> string option \<Rightarrow> string
   \<Rightarrow> nav_button option \<times> nav_button option" where
  "updateChapterNavigation elements prevUrl nextUrl source =
     (setButton (fst elements) prevUrl source, setButton (snd elements) nextUrl source)"

text \<open>
  \<^verbatim>\<open>showBasicChapterInfo\<close>. Its parameter list has no \<^verbatim>\<open>source\<close>, and the script
  declares no such variable at top level, yet the body passes \<^verbatim>\<open>source\<close> to
  \<^verbatim>\<open>updateChapterNavigation\<close>. \<open>scope_source\<close> is what the identifier resolves to
  in the enclosing (global) scope: \<open>None\<close> when nothing defines it, and then evaluating
  the argument list throws a \<^verbatim>\<open>ReferenceError\<close> before the call is made. The two
  titles are \<^verbatim>\<open>extractMangaTitleFromUrl(chapterUrl)\<close> and
  \<^verbatim>\<open>extractChapterTitleFromUrl(chapterUrl)\<close>, both of which catch their own errors.
  The writes made before the throw stay: the second component is the page as the
  function leaves it.
\<close>

definition showBasicChapterInfo ::
  "string option \<Rightarrow> string \<Rightarrow> string \<Rightarrow> 'e reader_page \<Rightarrow> exn option \<times> 'e reader_page" where
  "showBasicChapterInfo scope_source mangaTitle chapterTitleText page =
     (let page1 = page\<lparr>document_title := chapterTitleText @ '' - '' @ mangaTitle @ '' - ManhwaVerse'',
                        reader_title := (case reader_title page of
                                            None \<Rightarrow> None
                                          | Some t \<Rightarrow> Some (mangaTitle @ '' - '' @ chapterTitleText))\<rparr>
      in case scope_source of
           None \<Rightarrow> (Some ReferenceError, page1)
         | Some source \<Rightarrow>
             (let header = updateChapterNavigation
                             (prev_chapter_header page1, next_chapter_header page1) None None source;
                  footer = updateChapterNavigation
                             (prev_chapter_footer page1, next_chapter_footer page1) None None source
              in (None,
                  page1\<lparr>prev_chapter_header := fst header, next_chapter_header := snd header,
                        prev_chapter_footer := fst footer, next_chapter_footer := snd footer,
                        end_of_chapter_nav := (case end_of_chapter_nav page1 of
                                                 None \<Rightarrow> None | Some d \<Rightarrow> Some False)\<rparr>)))"

text \<open>
  The navigation step of \<^verbatim>\<open>handleReaderPage\<close>, from reading the chapter list to the end
  of the \<^verbatim>\<open>try\<close> block. \<open>source\<close> is the function's own local variable. The call
  of \<^verbatim>\<open>initReaderUI\<close> in the first branch only registers a scroll listener and is left
  out.
\<close>

definition chapterNavigation ::
  "string option \<Rightarrow> (string \<Rightarrow> string) \<Rightarrow> (string \<Rightarrow> string) \<Rightarrow> string \<Rightarrow>
   chapter_ref list \<Rightarrow> string \<Rightarrow> 'e reader_page \<Rightarrow> exn option \<times> 'e reader_page" where
  "chapterNavigation scope_source extractMangaTitleFromUrl extractChapterTitleFromUrl source
       chapterList chapterUrl page =
     (if length chapterList > 0 then
        (case findIndex (\<lambda>chapter. chapter_url chapter = chapterUrl) chapterList of
           Some currentIndex \<Rightarrow>
             (let prevChapter = (if currentIndex < length chapterList - 1
                                 then Some (chapterList ! (currentIndex + 1)) else None);
                  nextChapter = (if currentIndex > 0
                                 then Some (chapterList ! (currentIndex - 1)) else None);
                  currentChapter = chapterList ! currentIndex;
                  header = updateChapterNavigation
                             (prev_chapter_header page, next_chapter_header page)
                             (map_option chapter_url prevChapter)
                             (map_option chapter_url nextChapter) source;
                  footer = updateChapterNavigation
                             (prev_chapter_footer page, next_chapter_footer page)
                             (map_option chapter_url prevChapter)
                             (map_option chapter_url nextChapter) source
              in (None,
                  page\<lparr>document_title := chapter_title currentChapter @ '' - ManhwaVerse'',
                       reader_title := (case reader_title page of
                                          None \<Rightarrow> None
                                        | Some t \<Rightarrow> Some (chapter_title currentChapter)),
                       prev_chapter_header := fst header, next_chapter_header := snd header,
                       prev_chapter_footer := fst footer, next_chapter_footer := snd footer,
                       end_of_chapter_nav := (case end_of_chapter_nav page of
                                                None \<Rightarrow> None | Some d \<Rightarrow> Some True)\<rparr>))
         | None \<Rightarrow>
             showBasicChapterInfo scope_source (extractMangaTitleFromUrl chapterUrl)
               (extractChapterTitleFromUrl chapterUrl) page)
      else
        showBasicChapterInfo scope_source (extractMangaTitleFromUrl chapterUrl)
          (extractChapterTitleFromUrl chapterUrl) page)"

text \<open>
  The same step with the \<^verbatim>\<open>catch\<close> of \<^verbatim>\<open>handleReaderPage\<close> around it: an exception
  replaces the reader's content, the chapter images included, by the error state.
\<close>

definition handleReaderPage ::
  "string option \<Rightarrow> (string \<Rightarrow> string) \<Rightarrow> (string \<Rightarrow> string) \<Rightarrow> string \<Rightarrow>
   chapter_ref list \<Rightarrow> string \<Rightarrow> 'e reader_page \<Rightarrow> 'e reader_page" where
  "handleReaderPage scope_source extractMangaTitleFromUrl extractChapterTitleFromUrl source
       chapterList chapterUrl page =
     (case chapterNavigation scope_source extractMangaTitleFromUrl extractChapterTitleFromUrl
             source chapterList chapterUrl page of
        (None, page') \<Rightarrow> page'
      | (Some error, page') \<Rightarrow> page'\<lparr>reader_content := ErrorState (FailedToLoadChapter error)\<rparr>)"

section \<open>Reader page: chapter images (assets/js/main.js, displayChapterImages)\<close>

datatype priority = High | Low

datatype image_text = NoText | PreloadingPage nat | FailedToLoadPage nat

text \<open>
  An \<^verbatim>\<open>img\<close> element of the reader. \<open>page_no\<close> is the number in its \<^verbatim>\<open>alt\<close> text and
  in the messages of its handlers; \<open>immediate_load\<close> tells the two class names
  \<^verbatim>\<open>immediate-load\<close> and \<^verbatim>\<open>preloaded-image\<close> apart, and with them the two pairs of
  handlers; \<open>requested\<close> says that \<^verbatim>\<open>src\<close> was assigned, which starts the request,
  and \<open>eager\<close> that \<^verbatim>\<open>loading\<close> is \<^verbatim>\<open>'eager'\<close>; \<open>class_loaded\<close> and \<open>class_error\<close>
  are the classes the handlers add.
\<close>

record image =
  src :: string
  page_no :: nat
  immediate_load :: bool
  requested :: bool
  eager :: bool
  fetchPriority :: priority
  class_loaded :: bool
  class_error :: bool
  textContent :: image_text

text \<open>The element that the first \<^verbatim>\<open>forEach\<close> of \<^verbatim>\<open>displayChapterImages\<close> creates.\<close>

definition immediateImage :: "nat \<times> string \<Rightarrow> image" where
  "immediateImage p =
     \<lparr>src = snd p, page_no = fst p + 1, immediate_load = True, requested = True, eager = True,
      fetchPriority = High, class_loaded = False, class_error = False, textContent = NoText\<rparr>"

text \<open>The element that the \<^verbatim>\<open>forEach\<close> of \<^verbatim>\<open>preloadRemainingImages\<close> creates.\<close>

definition preloadedImage :: "nat \<times> string \<Rightarrow> image" where
  "preloadedImage p =
     \<lparr>src = snd p, page_no = fst p + 11, immediate_load = False, requested = True, eager = True,
      fetchPriority = Low, class_loaded = False, class_error = False,
      textContent = PreloadingPage (fst p + 11)\<rparr>"

definition preloadRemainingImages :: "string list \<Rightarrow> image list \<Rightarrow> image list" where
  "preloadRemainingImages images container =
     container @ map preloadedImage (enumerate 0 images)"

text \<open>
  \<^verbatim>\<open>displayChapterImages(images, container)\<close> for a container that exists; \<open>None\<close> is
  a missing \<^verbatim>\<open>image_urls\<close>.
\<close>

definition displayChapterImages :: "string list option \<Rightarrow> (image, reader_message) container" where
  "displayChapterImages images =
     (case images of
        None \<Rightarrow> EmptyState NoChapterImagesFound
      | Some urls \<Rightarrow>
          if length urls = 0 then EmptyState NoChapterImagesFound
          else
            let firstImages = slice urls 0 10;
                remainingImages = drop 10 urls;
                container = map immediateImage (enumerate 0 firstImages)
            in Elements (if length remainingImages > 0
                         then preloadRemainingImages remainingImages container
                         else container))"

text \<open>
  The handlers. On the first ten images \<^verbatim>\<open>onload\<close> adds the class \<^verbatim>\<open>loaded\<close> and
  \<^verbatim>\<open>onerror\<close> only writes a warning to the console; on the preloaded images
  \<^verbatim>\<open>onload\<close> also clears the text, and \<^verbatim>\<open>onerror\<close> adds the class \<^verbatim>\<open>error\<close> and
  sets the text to the failure message of the page. No handler assigns \<^verbatim>\<open>src\<close> again.
\<close>

definition onload :: "image \<Rightarrow> image" where
  "onload img =
     (if immediate_load img then img\<lparr>class_loaded := True\<rparr>
      else img\<lparr>class_loaded := True, textContent := NoText\<rparr>)"

definition onerror :: "image \<Rightarrow> image" where
  "onerror img =
     (if immediate_load img then img
      else img\<lparr>class_error := True, textContent := FailedToLoadPage (page_no img)\<rparr>)"

text \<open>An event on the image at one position of the container; the others are not touched.\<close>

definition fire :: "(image \<Rightarrow> image) \<Rightarrow> nat \<Rightarrow> image list \<Rightarrow> image list" where
  "fire handler i container =
     (if i < length container then container[i := handler (container ! i)] else container)"

section \<open>Homepage: quick load and full load (assets/js/main.js, loadHomepageContent)\<close>













section \<open>JSON values and the JavaScript operations on them\<close>

text \<open>
  What \<^verbatim>\<open>JSON.parse\<close> can return. An object is the list of its own properties, with
  distinct keys; a property whose value is \<^verbatim>\<open>undefined\<close> is left out, as
  \<^verbatim>\<open>JSON.stringify\<close> leaves it out. The order of the properties is not observed by
  any of the code below, and all lookups go through \<open>map_of\<close>. The numbers in the
  stored data are counts, so numbers are integers here.
\<close>

datatype json =
    JNull
  | JBool bool
  | JNum int
  | JStr string
  | JArr "json list"
  | JObj "(string \<times> json) list"

text \<open>Truthiness, as \<^verbatim>\<open>if (v)\<close>, \<^verbatim>\<open>!v\<close> and \<^verbatim>\<open>v || d\<close> test it.\<close>

fun truthy :: "json \<Rightarrow> bool" where
  "truthy JNull = False"
| "truthy (JBool b) = b"
| "truthy (JNum n) = (n \<noteq> 0)"
| "truthy (JStr s) = (s \<noteq> [])"
| "truthy (JArr xs) = True"
| "truthy (JObj kvs) = True"

definition js_or :: "json \<Rightarrow> json \<Rightarrow> json" where
  "js_or v d = (if truthy v then v else d)"

text \<open>
  The decimal numeral of a number that is not negative, and the array index a property
  name denotes: the name must be the numeral of a number below \<open>2^32 - 1\<close>.
\<close>

function decimal :: "int \<Rightarrow> string" where
  "decimal n =
     (if n < 10 then [''0123456789'' ! nat n]
      else decimal (n div 10) @ [''0123456789'' ! nat (n mod 10)])"
  by pat_completeness auto
termination
  by (relation "measure nat") auto

declare decimal.simps [simp del]

definition digit_value :: "char \<Rightarrow> int" where
  "digit_value c = of_char c - 48"

definition array_index :: "string \<Rightarrow> nat option" where
  "array_index key =
     (if key \<noteq> [] \<and> list_all (\<lambda>c. c \<in> set ''0123456789'') key then
        (let n = foldl (\<lambda>acc c. 10 * acc + digit_value c) 0 key
         in if decimal n = key \<and> n < 4294967295 then Some (nat n) else None)
      else None)"

text \<open>
  Reading \<^verbatim>\<open>v[key]\<close> (or \<^verbatim>\<open>v.key\<close>): \<open>None\<close> is \<^verbatim>\<open>undefined\<close>, reading from
  \<^verbatim>\<open>null\<close> throws. Own properties only: the members inherited from the prototypes
  are functions, which behave as \<^verbatim>\<open>undefined\<close> wherever the code below reads them.
\<close>

fun getProp :: "json \<Rightarrow> string \<Rightarrow> exn + json option" where
  "getProp JNull key = Inl TypeError"
| "getProp (JObj kvs) key = Inr (map_of kvs key)"
| "getProp (JArr xs) key =
     (if key = ''length'' then Inr (Some (JNum (int (length xs))))
      else (case array_index key of
              Some i \<Rightarrow> Inr (if i < length xs then Some (xs ! i) else None)
            | None \<Rightarrow> Inr None))"
| "getProp (JStr s) key =
     (if key = ''length'' then Inr (Some (JNum (int (length s))))
      else (case array_index key of
              Some i \<Rightarrow> Inr (if i < length s then Some (JStr [s ! i]) else None)
            | None \<Rightarrow> Inr None))"
| "getProp (JNum n) key = Inr None"
| "getProp (JBool b) key = Inr None"

text \<open>Defining or overwriting one own property of an object, in place.\<close>

fun putProp :: "(string \<times> json) list \<Rightarrow> string \<Rightarrow> json \<Rightarrow> (string \<times> json) list" where
  "putProp [] key v = [(key, v)]"
| "putProp ((k, w) # kvs) key v =
     (if k = key then (k, v) # kvs else (k, w) # putProp kvs key v)"

text \<open>
  The assignment \<^verbatim>\<open>target[key] = v\<close> in strict mode (a class body is strict code), as
  the value that \<^verbatim>\<open>JSON.stringify\<close> sees afterwards. On a primitive it throws; on an
  array an index stores an element (the holes in front of it serialise as \<^verbatim>\<open>null\<close>),
  \<^verbatim>\<open>length\<close> resizes or throws a \<^verbatim>\<open>RangeError\<close>, and any other name adds a property
  that the serialisation ignores. On an object without an own property of that name,
  assigning to \<^verbatim>\<open>__proto__\<close> changes the prototype and no property.
\<close>

fun setProp :: "json \<Rightarrow> string \<Rightarrow> json \<Rightarrow> exn + json" where
  "setProp (JObj kvs) key v =
     (if key = ''__proto__'' \<and> map_of kvs key = None then Inr (JObj kvs)
      else Inr (JObj (putProp kvs key v)))"
| "setProp (JArr xs) key v =
     (if key = ''length'' then
        (case v of
           JNum n \<Rightarrow>
             if 0 \<le> n \<and> n < 4294967296
             then Inr (JArr (take (nat n) xs @ replicate (nat n - length xs) JNull))
             else Inl RangeError
         | _ \<Rightarrow> Inl RangeError)
      else (case array_index key of
              Some i \<Rightarrow>
                Inr (JArr (if i < length xs then xs[i := v]
                           else xs @ replicate (i - length xs) JNull @ [v]))
            | None \<Rightarrow> Inr (JArr xs)))"
| "setProp JNull key v = Inl TypeError"
| "setProp (JStr s) key v = Inl TypeError"
| "setProp (JNum n) key v = Inl TypeError"
| "setProp (JBool b) key v = Inl TypeError"

text \<open>
  The own enumerable properties that an object spread \<^verbatim>\<open>{...v}\<close> copies: those of an
  object, the elements of an array under their indices, the characters of a string
  under theirs, and nothing for a number, a boolean or \<^verbatim>\<open>null\<close>.
\<close>

fun spread :: "json \<Rightarrow> (string \<times> json) list" where
  "spread (JObj kvs) = kvs"
| "spread (JArr xs) = map (\<lambda>(i, x). (decimal (int i), x)) (enumerate 0 xs)"
| "spread (JStr s) = map (\<lambda>(i, c). (decimal (int i), JStr [c])) (enumerate 0 s)"
| "spread JNull = []"
| "spread (JNum n) = []"
| "spread (JBool b) = []"

text \<open>The object literal \<^verbatim>\<open>{ ...a, ...b }\<close>: the properties are defined from left to right.\<close>

definition spreadMerge :: "json \<Rightarrow> json \<Rightarrow> json" where
  "spreadMerge a b = JObj (foldl (\<lambda>obj (k, v). putProp obj k v) [] (spread a @ spread b))"

section \<open>The browser's localStorage\<close>

text \<open>
  A stored string is either the serialisation of a JSON value or a string that
  \<^verbatim>\<open>JSON.parse\<close> rejects (\<open>Garbled\<close>, with the empty string among them). The storage
  holds the strings by key; \<open>blocked\<close> says that the browser denies access (every
  access throws a \<^verbatim>\<open>SecurityError\<close>), and \<open>fits\<close> is the quota: it tells of any
  contents whether the browser would still hold them.
\<close>

datatype stored = Text json | Garbled string

record local_storage =
  items :: "string \<Rightarrow> stored option"
  blocked :: bool
  fits :: "(string \<Rightarrow> stored option) \<Rightarrow> bool"

definition getItem :: "local_storage \<Rightarrow> string \<Rightarrow> exn + stored option" where
  "getItem ls key = (if blocked ls then Inl SecurityError else Inr (items ls key))"

definition setItem :: "local_storage \<Rightarrow> string \<Rightarrow> stored \<Rightarrow> exn + local_storage" where
  "setItem ls key s =
     (if blocked ls then Inl SecurityError
      else if fits ls ((items ls)(key \<mapsto> s)) then Inr (ls\<lparr>items := (items ls)(key \<mapsto> s)\<rparr>)
      else Inl QuotaExceededError)"

definition removeItem :: "local_storage \<Rightarrow> string \<Rightarrow> exn + local_storage" where
  "removeItem ls key =
     (if blocked ls then Inl SecurityError else Inr (ls\<lparr>items := (items ls)(key := None)\<rparr>))"

definition JSON_parse :: "stored \<Rightarrow> exn + json" where
  "JSON_parse s = (case s of Text v \<Rightarrow> Inr v | Garbled g \<Rightarrow> Inl SyntaxError)"

definition JSON_stringify :: "json \<Rightarrow> stored" where
  "JSON_stringify v = Text v"

section \<open>StorageManager (src/unnamed/part_001)\<close>

definition readingHistory_key :: string where "readingHistory_key = ''manhwa_reading_history''"
definition bookmarks_key :: string where "bookmarks_key = ''manhwa_bookmarks''"
definition readingProgress_key :: string where "readingProgress_key = ''manhwa_reading_progress''"
definition userPreferences_key :: string where "userPreferences_key = ''manhwa_user_preferences''"

text \<open>
  A method returns a value or throws, and leaves a storage behind: \<open>(Inr v, ls)\<close> or
  \<open>(Inl e, ls)\<close>.
\<close>

type_synonym 'a outcome = "(exn + 'a) \<times> local_storage"

text \<open>The \<^verbatim>\<open>try\<close> block of \<^verbatim>\<open>get\<close>, and \<^verbatim>\<open>get\<close> with its \<^verbatim>\<open>catch\<close>.\<close>

definition get_try :: "local_storage \<Rightarrow> string \<Rightarrow> exn + json" where
  "get_try ls key =
     (case getItem ls key of
        Inl e \<Rightarrow> Inl e
      | Inr None \<Rightarrow> Inr JNull
      | Inr (Some item) \<Rightarrow> if item = Garbled [] then Inr JNull else JSON_parse item)"

definition get :: "local_storage \<Rightarrow> string \<Rightarrow> exn + json" where
  "get ls key = (case get_try ls key of Inl error \<Rightarrow> Inr JNull | Inr v \<Rightarrow> Inr v)"

text \<open>
  The \<^verbatim>\<open>try\<close> block of \<^verbatim>\<open>set\<close>, and \<^verbatim>\<open>set\<close> with its \<^verbatim>\<open>catch\<close>; the method is
  called \<open>set_item\<close> here, as \<open>set\<close> is the library's name for the elements of a list.
\<close>

definition set_try :: "local_storage \<Rightarrow> string \<Rightarrow> json \<Rightarrow> exn + local_storage" where
  "set_try ls key v = setItem ls key (JSON_stringify v)"

definition set_item :: "local_storage \<Rightarrow> string \<Rightarrow> json \<Rightarrow> bool outcome" where
  "set_item ls key v =
     (case set_try ls key v of Inl error \<Rightarrow> (Inr False, ls) | Inr ls' \<Rightarrow> (Inr True, ls'))"

text \<open>
  Sequencing, as statements in a method body follow each other: an exception of the
  first part ends the method, with the storage as it is then.
\<close>

definition andThen :: "'a outcome \<Rightarrow> ('a \<Rightarrow> local_storage \<Rightarrow> 'b outcome) \<Rightarrow> 'b outcome" where
  "andThen m f = (case m of (Inl e, ls) \<Rightarrow> (Inl e, ls) | (Inr v, ls) \<Rightarrow> f v ls)"

definition reading :: "local_storage \<Rightarrow> exn + 'a \<Rightarrow> 'a outcome" where
  "reading ls r = (r, ls)"

definition defaultPreferences :: json where
  "defaultPreferences =
     JObj [(''theme'', JStr ''dark''), (''readingMode'', JStr ''long-strip''),
           (''autoScroll'', JBool False), (''fontSize'', JStr ''medium'')]"

text \<open>One of the four steps of \<^verbatim>\<open>init\<close>: \<^verbatim>\<open>if (!this.get(key)) this.set(key, v)\<close>.\<close>

definition initKey :: "string \<Rightarrow> json \<Rightarrow> local_storage \<Rightarrow> unit outcome" where
  "initKey key v ls =
     andThen (reading ls (get ls key)) (\<lambda>found ls.
       if \<not> truthy found then andThen (set_item ls key v) (\<lambda>ok ls. (Inr (), ls))
       else (Inr (), ls))"

definition init :: "local_storage \<Rightarrow> unit outcome" where
  "init ls =
     andThen (initKey readingHistory_key (JArr []) ls) (\<lambda>u ls.
     andThen (initKey bookmarks_key (JArr []) ls) (\<lambda>u ls.
     andThen (initKey readingProgress_key (JObj []) ls) (\<lambda>u ls.
     initKey userPreferences_key defaultPreferences ls)))"

subsection \<open>Arguments of the entity methods\<close>

text \<open>
  \<^verbatim>\<open>mangaData\<close>: a title, and the optional members the methods read with a fallback
  (\<^verbatim>\<open>cover_image || cover_url\<close>, \<^verbatim>\<open>source || 'AsuraScanz'\<close>). \<^verbatim>\<open>chapterData\<close> is a
  \<open>chapter_ref\<close>: a title and a URL.
\<close>

record manga_data =
  manga_title :: string
  cover_image :: "string option"
  cover_url :: "string option"
  detail_url :: "string option"
  manga_source :: "string option"

text \<open>\<^verbatim>\<open>a || b\<close> on optional strings: a missing and an empty string are both falsy.\<close>

definition or_str :: "string option \<Rightarrow> string option \<Rightarrow> string option" where
  "or_str a b = (case a of None \<Rightarrow> b | Some s \<Rightarrow> if s \<noteq> [] then Some s else b)"

text \<open>A property of an object literal whose value may be \<^verbatim>\<open>undefined\<close>.\<close>

definition optProp :: "string \<Rightarrow> string option \<Rightarrow> (string \<times> json) list" where
  "optProp key v = (case v of None \<Rightarrow> [] | Some s \<Rightarrow> [(key, JStr s)])"

text \<open>
  \<^verbatim>\<open>items.findIndex(item => item.id === id)\<close> for a string \<open>id\<close>: the callback throws on
  a \<^verbatim>\<open>null\<close> element, and \<^verbatim>\<open>findIndex\<close> stops at the first match.
\<close>

fun findIndexById :: "string \<Rightarrow> json list \<Rightarrow> exn + nat option" where
  "findIndexById ident [] = Inr None"
| "findIndexById ident (item # rest) =
     (case getProp item ''id'' of
        Inl e \<Rightarrow> Inl e
      | Inr v \<Rightarrow>
          if v = Some (JStr ident) then Inr (Some 0)
          else (case findIndexById ident rest of
                  Inl e \<Rightarrow> Inl e
                | Inr None \<Rightarrow> Inr None
                | Inr (Some i) \<Rightarrow> Inr (Some (Suc i))))"


subsection \<open>Reading progress\<close>

text \<open>
  \<^verbatim>\<open>updateReadingProgress(mangaTitle, chapterTitle)\<close>; \<open>now\<close> is
  \<^verbatim>\<open>new Date().toISOString()\<close> at the call.
\<close>

definition updateReadingProgress ::
  "local_storage \<Rightarrow> string \<Rightarrow> string \<Rightarrow> string \<Rightarrow> unit outcome" where
  "updateReadingProgress ls now mangaTitle chapterTitle =
     andThen (reading ls (get ls readingProgress_key)) (\<lambda>found ls.
       let progress = js_or found (JObj []) in
       andThen (reading ls (getProp progress mangaTitle)) (\<lambda>previous ls.
       andThen (reading ls (case previous of
                              None \<Rightarrow> Inr None
                            | Some JNull \<Rightarrow> Inr None
                            | Some p \<Rightarrow> getProp p ''totalChapters'')) (\<lambda>total ls.
         let totalChapters = (case total of None \<Rightarrow> JNum 0 | Some t \<Rightarrow> js_or t (JNum 0));
             entry = JObj [(''lastChapter'', JStr chapterTitle), (''lastReadAt'', JStr now),
                           (''totalChapters'', totalChapters)]
         in andThen (reading ls (setProp progress mangaTitle entry)) (\<lambda>progress' ls.
            andThen (set_item ls readingProgress_key progress') (\<lambda>ok ls. (Inr (), ls))))))"

subsection \<open>Reading history\<close>

definition historyItem :: "string \<Rightarrow> manga_data \<Rightarrow> chapter_ref \<Rightarrow> json" where
  "historyItem now mangaData chapterData =
     JObj ([(''id'', JStr (manga_title mangaData @ ''_'' @ chapter_title chapterData)),
            (''mangaTitle'', JStr (manga_title mangaData))]
           @ optProp ''mangaCover'' (or_str (cover_image mangaData) (cover_url mangaData))
           @ optProp ''mangaUrl'' (detail_url mangaData)
           @ [(''chapterTitle'', JStr (chapter_title chapterData)),
              (''chapterUrl'', JStr (chapter_url chapterData)),
              (''readAt'', JStr now)]
           @ optProp ''source'' (or_str (manga_source mangaData) (Some ''AsuraScanz'')))"

text \<open>
  The three list steps of \<^verbatim>\<open>addToHistory\<close>: \<^verbatim>\<open>splice(existingIndex, 1)\<close> if the index
  is not \<open>-1\<close>, \<^verbatim>\<open>unshift(historyItem)\<close>, \<^verbatim>\<open>splice(100)\<close> if the length exceeds 100.
\<close>

definition pushHistory :: "nat option \<Rightarrow> json \<Rightarrow> json list \<Rightarrow> json list" where
  "pushHistory existingIndex item history =
     (let history1 = (case existingIndex of
                        None \<Rightarrow> history
                      | Some i \<Rightarrow> take i history @ drop (Suc i) history);
          history2 = item # history1
      in if length history2 > 100 then take 100 history2 else history2)"

definition addToHistory ::
  "local_storage \<Rightarrow> string \<Rightarrow> manga_data \<Rightarrow> chapter_ref \<Rightarrow> json outcome" where
  "addToHistory ls now mangaData chapterData =
     andThen (reading ls (get ls readingHistory_key)) (\<lambda>found ls.
       let item = historyItem now mangaData chapterData in
       case js_or found (JArr []) of
         JArr history \<Rightarrow>
           andThen (reading ls (findIndexById (manga_title mangaData @ ''_'' @ chapter_title chapterData)
                                  history)) (\<lambda>existingIndex ls.
           andThen (set_item ls readingHistory_key (JArr (pushHistory existingIndex item history)))
             (\<lambda>ok ls.
           andThen (updateReadingProgress ls now (manga_title mangaData) (chapter_title chapterData))
             (\<lambda>u ls. (Inr item, ls))))
       | _ \<Rightarrow> (Inl TypeError, ls))"

subsection \<open>Bookmarks\<close>

definition bookmarkOf :: "string \<Rightarrow> manga_data \<Rightarrow> json" where
  "bookmarkOf now mangaData =
     JObj ([(''id'', JStr (manga_title mangaData)), (''title'', JStr (manga_title mangaData))]
           @ optProp ''cover'' (or_str (cover_image mangaData) (cover_url mangaData))
           @ optProp ''detailUrl'' (detail_url mangaData)
           @ [(''addedAt'', JStr now)]
           @ optProp ''source'' (or_str (manga_source mangaData) (Some ''AsuraScanz''))
           @ [(''lastReadChapter'', JNull), (''status'', JStr ''reading'')])"

text \<open>\<^verbatim>\<open>addBookmark\<close> returns the bookmark, or \<^verbatim>\<open>false\<close> (\<open>JBool False\<close>).\<close>

definition addBookmark :: "local_storage \<Rightarrow> string \<Rightarrow> manga_data \<Rightarrow> json outcome" where
  "addBookmark ls now mangaData =
     andThen (reading ls (get ls bookmarks_key)) (\<lambda>found ls.
       let bookmark = bookmarkOf now mangaData in
       case js_or found (JArr []) of
         JArr bookmarks \<Rightarrow>
           andThen (reading ls (findIndexById (manga_title mangaData) bookmarks)) (\<lambda>existingIndex ls.
             case existingIndex of
               Some i \<Rightarrow> (Inr (JBool False), ls)
             | None \<Rightarrow>
                 andThen (set_item ls bookmarks_key (JArr (bookmark # bookmarks)))
                   (\<lambda>ok ls. (Inr bookmark, ls)))
       | _ \<Rightarrow> (Inl TypeError, ls))"


text \<open>\<^verbatim>\<open>bookmarks.some(item => item.id === mangaTitle)\<close>.\<close>

definition isBookmarked :: "local_storage \<Rightarrow> string \<Rightarrow> bool outcome" where
  "isBookmarked ls mangaTitle =
     andThen (reading ls (get ls bookmarks_key)) (\<lambda>found ls.
       case js_or found (JArr []) of
         JArr bookmarks \<Rightarrow>
           andThen (reading ls (findIndexById mangaTitle bookmarks)) (\<lambda>existingIndex ls.
             (Inr (existingIndex \<noteq> None), ls))
       | _ \<Rightarrow> (Inl TypeError, ls))"


subsection \<open>Preferences\<close>

definition getPreferences :: "local_storage \<Rightarrow> json outcome" where
  "getPreferences ls =
     andThen (reading ls (get ls userPreferences_key)) (\<lambda>found ls. (Inr (js_or found (JObj [])), ls))"

definition updatePreferences :: "local_storage \<Rightarrow> json \<Rightarrow> json outcome" where
  "updatePreferences ls newPreferences =
     andThen (getPreferences ls) (\<lambda>current ls.
       let updated = spreadMerge current newPreferences in
       andThen (set_item ls userPreferences_key updated) (\<lambda>ok ls. (Inr updated, ls)))"

subsection \<open>Import\<close>

text \<open>One line of \<^verbatim>\<open>importData\<close>: \<^verbatim>\<open>if (data.member) this.set(key, data.member)\<close>.\<close>

definition importMember :: "json \<Rightarrow> string \<Rightarrow> string \<Rightarrow> local_storage \<Rightarrow> unit outcome" where
  "importMember data member key ls =
     andThen (reading ls (getProp data member)) (\<lambda>payload ls.
       case payload of
         None \<Rightarrow> (Inr (), ls)
       | Some v \<Rightarrow> if truthy v then andThen (set_item ls key v) (\<lambda>ok ls. (Inr (), ls))
                   else (Inr (), ls))"

definition importData_try :: "local_storage \<Rightarrow> json \<Rightarrow> bool outcome" where
  "importData_try ls data =
     andThen (importMember data ''readingHistory'' readingHistory_key ls) (\<lambda>u ls.
     andThen (importMember data ''bookmarks'' bookmarks_key ls) (\<lambda>u ls.
     andThen (importMember data ''readingProgress'' readingProgress_key ls) (\<lambda>u ls.
     andThen (importMember data ''userPreferences'' userPreferences_key ls) (\<lambda>u ls.
     (Inr True, ls)))))"

definition importData :: "local_storage \<Rightarrow> json \<Rightarrow> bool outcome" where
  "importData ls data =
     (case importData_try ls data of
        (Inl error, ls') \<Rightarrow> (Inr False, ls')
      | (Inr ok, ls') \<Rightarrow> (Inr ok, ls'))"

subsection \<open>Clearing\<close>

text \<open>
  \<^verbatim>\<open>clearAllData\<close> calls \<^verbatim>\<open>localStorage.removeItem\<close> itself, for the four keys in the
  order of \<^verbatim>\<open>this.keys\<close> and outside any \<^verbatim>\<open>try\<close>, and then \<^verbatim>\<open>init\<close>.
\<close>

definition removeKey :: "string \<Rightarrow> local_storage \<Rightarrow> unit outcome" where
  "removeKey key ls = (case removeItem ls key of Inl e \<Rightarrow> (Inl e, ls) | Inr ls' \<Rightarrow> (Inr (), ls'))"

definition clearAllData :: "local_storage \<Rightarrow> unit outcome" where
  "clearAllData ls =
     andThen (removeKey readingHistory_key ls) (\<lambda>u ls.
     andThen (removeKey bookmarks_key ls) (\<lambda>u ls.
     andThen (removeKey readingProgress_key ls) (\<lambda>u ls.
     andThen (removeKey userPreferences_key ls) (\<lambda>u ls.
     init ls))))"

subsection \<open>Observations used in the statements\<close>

text \<open>The \<^verbatim>\<open>id\<close> of a stored entry (\<open>None\<close> when it has none or is \<^verbatim>\<open>null\<close>).\<close>

definition entryId :: "json \<Rightarrow> json option" where
  "entryId item = (case getProp item ''id'' of Inl e \<Rightarrow> None | Inr v \<Rightarrow> v)"

text \<open>The list that a method sees under a key: \<^verbatim>\<open>this.get(key) || []\<close>, if it is an array.\<close>

definition storedList :: "local_storage \<Rightarrow> string \<Rightarrow> json list" where
  "storedList ls key =
     (case get ls key of
        Inr v \<Rightarrow> (case js_or v (JArr []) of JArr xs \<Rightarrow> xs | _ \<Rightarrow> [])
      | Inl e \<Rightarrow> [])"

text \<open>
  A list as the entity methods write it: every entry is an object with a string
  \<^verbatim>\<open>id\<close>, and no two entries have the same \<^verbatim>\<open>id\<close>.
\<close>

definition entries_ok :: "json list \<Rightarrow> bool" where
  "entries_ok xs =
     (list_all (\<lambda>x. case entryId x of Some (JStr s) \<Rightarrow> True | _ \<Rightarrow> False) xs
      \<and> distinct (map entryId xs))"

text \<open>What is stored under a key is falsy, absent or unreadable, or is such a list.\<close>

definition list_key_ok :: "local_storage \<Rightarrow> string \<Rightarrow> bool" where
  "list_key_ok ls key =
     (case get ls key of
        Inr v \<Rightarrow> (case js_or v (JArr []) of JArr xs \<Rightarrow> entries_ok xs | _ \<Rightarrow> False)
      | Inl e \<Rightarrow> False)"

text \<open>
  What \<open>importData\<close> stores from an object: each of the four members that is present
  and truthy is written under its key, as it is; nothing is checked.
\<close>

definition imported :: "(string \<times> json) list \<Rightarrow> string \<Rightarrow> string \<Rightarrow> local_storage \<Rightarrow> local_storage" where
  "imported kvs member key ls =
     (case map_of kvs member of
        None \<Rightarrow> ls
      | Some v \<Rightarrow> if truthy v then ls\<lparr>items := (items ls)(key \<mapsto> Text v)\<rparr> else ls)"



text \<open>A sequence of \<^verbatim>\<open>addToHistory\<close> calls, each with its time, title data and chapter.\<close>

fun addAllToHistory ::
  "local_storage \<Rightarrow> (string \<times> manga_data \<times> chapter_ref) list \<Rightarrow> local_storage" where
  "addAllToHistory ls [] = ls"
| "addAllToHistory ls ((now, mangaData, chapterData) # calls) =
     addAllToHistory (snd (addToHistory ls now mangaData chapterData)) calls"

text \<open>
  The most recent entry first, and of several entries with one \<^verbatim>\<open>id\<close> only the most
  recent: the list is read from its head, and an entry is dropped when an earlier one
  (a more recent one) has its \<^verbatim>\<open>id\<close>.
\<close>

fun recentFirst :: "json list \<Rightarrow> json list" where
  "recentFirst [] = []"
| "recentFirst (x # xs) = x # recentFirst (filter (\<lambda>y. entryId y \<noteq> entryId x) xs)"

section \<open>Properties of the progressive scroll\<close>

lemma loadMoreContent_isLoading:
  "\<not> isLoading s \<Longrightarrow> \<not> isLoading (snd (loadMoreContent mk allData s))"
  by (simp add: loadMoreContent_def Let_def split: prod.splits option.splits)













text \<open>
  Claim C8. A call that finds \<open>isLoading\<close> set, or \<open>hasMoreData\<close> cleared, returns at
  once: no batch, and the very same state. A call that does run resets \<open>isLoading\<close>
  before it returns, and since the function never suspends, no other call can observe
  the flag set by it: there is never more than one load under way.
\<close>

theorem loadMoreContent_single_flight:
  "(isLoading s \<or> \<not> hasMoreData s \<longrightarrow> loadMoreContent mk allData s = ([], s))
   \<and> (\<not> isLoading s \<longrightarrow> \<not> isLoading (snd (loadMoreContent mk allData s)))"
  using loadMoreContent_isLoading[of s mk allData] by (simp add: loadMoreContent_def Let_def)

theorem loadMoreContent_single_flight_witness:
  "isLoading \<lparr>isLoading = True, hasMoreData = True, currentOffset = 0,
              indicatorShown = True, cards = [] :: nat list\<rparr>
   \<and> loadMoreContent (\<lambda>m. Inr (Some m)) [Some 5, Some 6, Some (7 :: nat)]
        \<lparr>isLoading = True, hasMoreData = True, currentOffset = 0,
         indicatorShown = True, cards = []\<rparr> =
       ([], \<lparr>isLoading = True, hasMoreData = True, currentOffset = 0,
             indicatorShown = True, cards = []\<rparr>)
   \<and> \<not> isLoading (setupProgressiveScroll [] 0 :: nat cursor)
   \<and> \<not> isLoading (snd (loadMoreContent (\<lambda>m. Inr (Some m)) [Some 5, Some 6, Some (7 :: nat)]
                           (setupProgressiveScroll [] 0)))"
  using loadMoreContent_single_flight[of
          "\<lparr>isLoading = True, hasMoreData = True, currentOffset = 0,
            indicatorShown = True, cards = [] :: nat list\<rparr>" "\<lambda>m. Inr (Some m)"
          "[Some 5, Some 6, Some (7 :: nat)]"]
        loadMoreContent_single_flight[of "setupProgressiveScroll [] 0 :: nat cursor"
          "\<lambda>m. Inr (Some m)" "[Some 5, Some 6, Some (7 :: nat)]"]
  by (simp add: setupProgressiveScroll_def)

section \<open>Properties of the chapter navigation\<close>

lemma findIndex_Some:
  "findIndex p xs = Some i \<Longrightarrow> i < length xs \<and> p (xs ! i) \<and> (\<forall>j<i. \<not> p (xs ! j))"
proof (induction xs arbitrary: i)
  case Nil
  then show ?case by simp
next
  case (Cons x xs)
  show ?case
  proof (cases "p x")
    case True
    with Cons.prems show ?thesis by simp
  next
    case False
    with Cons.prems obtain k where k: "findIndex p xs = Some k" "i = Suc k"
      by (auto split: option.splits)
    from Cons.IH[OF k(1)] False k(2) show ?thesis
      by (auto simp: nth_Cons split: nat.splits)
  qed
qed

lemma findIndex_None: "findIndex p xs = None \<longleftrightarrow> (\<forall>x \<in> set xs. \<not> p x)"
  by (induction xs) (auto split: option.splits)

lemma findIndex_first:
  "i < length xs \<Longrightarrow> p (xs ! i) \<Longrightarrow> \<forall>j<i. \<not> p (xs ! j) \<Longrightarrow> findIndex p xs = Some i"
proof (induction xs arbitrary: i)
  case Nil
  then show ?case by simp
next
  case (Cons x xs)
  show ?case
  proof (cases i)
    case 0
    with Cons.prems show ?thesis by simp
  next
    case (Suc k)
    with Cons.prems have "\<not> p x" by auto
    moreover have "findIndex p xs = Some k"
      using Cons.prems Suc by (intro Cons.IH) auto
    ultimately show ?thesis using Suc by simp
  qed
qed

text \<open>
  When the current URL is in the list, at first position \<open>i\<close>, the step cannot throw.
  The previous controls get the URL of entry \<open>i + 1\<close> if there is one and are hidden
  otherwise; the next controls get the URL of entry \<open>i - 1\<close> if \<open>i > 0\<close> and are
  hidden otherwise.
\<close>

lemma chapterNavigation_found:
  assumes "i < length chapterList"
    and "chapter_url (chapterList ! i) = chapterUrl"
    and "\<forall>j<i. chapter_url (chapterList ! j) \<noteq> chapterUrl"
  shows "fst (chapterNavigation sc emt ect source chapterList chapterUrl page) = None"
    and "prev_chapter_header (snd (chapterNavigation sc emt ect source chapterList chapterUrl page)) =
           setButton (prev_chapter_header page)
             (if i + 1 < length chapterList then Some (chapter_url (chapterList ! (i + 1))) else None)
             source"
    and "next_chapter_header (snd (chapterNavigation sc emt ect source chapterList chapterUrl page)) =
           setButton (next_chapter_header page)
             (if 0 < i then Some (chapter_url (chapterList ! (i - 1))) else None) source"
    and "prev_chapter_footer (snd (chapterNavigation sc emt ect source chapterList chapterUrl page)) =
           setButton (prev_chapter_footer page)
             (if i + 1 < length chapterList then Some (chapter_url (chapterList ! (i + 1))) else None)
             source"
    and "next_chapter_footer (snd (chapterNavigation sc emt ect source chapterList chapterUrl page)) =
           setButton (next_chapter_footer page)
             (if 0 < i then Some (chapter_url (chapterList ! (i - 1))) else None) source"
proof -
  have idx: "findIndex (\<lambda>chapter. chapter_url chapter = chapterUrl) chapterList = Some i"
    using assms by (intro findIndex_first) auto
  have pos: "0 < length chapterList" using assms(1) by (cases chapterList) auto
  have lt: "i < length chapterList - 1 \<longleftrightarrow> i + 1 < length chapterList" by auto
  show "fst (chapterNavigation sc emt ect source chapterList chapterUrl page) = None"
    using idx pos by (simp add: chapterNavigation_def Let_def)
  show "prev_chapter_header (snd (chapterNavigation sc emt ect source chapterList chapterUrl page)) =
           setButton (prev_chapter_header page)
             (if i + 1 < length chapterList then Some (chapter_url (chapterList ! (i + 1))) else None)
             source"
    using idx pos lt by (simp add: chapterNavigation_def Let_def updateChapterNavigation_def)
  show "next_chapter_header (snd (chapterNavigation sc emt ect source chapterList chapterUrl page)) =
           setButton (next_chapter_header page)
             (if 0 < i then Some (chapter_url (chapterList ! (i - 1))) else None) source"
    using idx pos by (simp add: chapterNavigation_def Let_def updateChapterNavigation_def)
  show "prev_chapter_footer (snd (chapterNavigation sc emt ect source chapterList chapterUrl page)) =
           setButton (prev_chapter_footer page)
             (if i + 1 < length chapterList then Some (chapter_url (chapterList ! (i + 1))) else None)
             source"
    using idx pos lt by (simp add: chapterNavigation_def Let_def updateChapterNavigation_def)
  show "next_chapter_footer (snd (chapterNavigation sc emt ect source chapterList chapterUrl page)) =
           setButton (next_chapter_footer page)
             (if 0 < i then Some (chapter_url (chapterList ! (i - 1))) else None) source"
    using idx pos by (simp add: chapterNavigation_def Let_def updateChapterNavigation_def)
qed

text \<open>
  When the current URL is not in the list (the empty list included), the step goes through
  \<open>showBasicChapterInfo\<close>. If the identifier \<^verbatim>\<open>source\<close> resolved there, all four
  controls would be hidden; as nothing defines it, the step throws instead.
\<close>

lemma chapterNavigation_absent:
  assumes "\<forall>c \<in> set chapterList. chapter_url c \<noteq> chapterUrl"
  shows "chapterNavigation sc emt ect source chapterList chapterUrl page =
           showBasicChapterInfo sc (emt chapterUrl) (ect chapterUrl) page"
proof -
  have "findIndex (\<lambda>chapter. chapter_url chapter = chapterUrl) chapterList = None"
    using assms by (simp add: findIndex_None)
  then show ?thesis by (simp add: chapterNavigation_def)
qed

lemma showBasicChapterInfo_unresolved:
  "fst (showBasicChapterInfo None mangaTitle chapterTitleText page) = Some ReferenceError"
  by (simp add: showBasicChapterInfo_def Let_def)

lemma showBasicChapterInfo_resolved:
  "fst (showBasicChapterInfo (Some v) mangaTitle chapterTitleText page) = None
   \<and> prev_chapter_header (snd (showBasicChapterInfo (Some v) mangaTitle chapterTitleText page))
       = map_option (\<lambda>b. Hidden) (prev_chapter_header page)
   \<and> next_chapter_header (snd (showBasicChapterInfo (Some v) mangaTitle chapterTitleText page))
       = map_option (\<lambda>b. Hidden) (next_chapter_header page)
   \<and> prev_chapter_footer (snd (showBasicChapterInfo (Some v) mangaTitle chapterTitleText page))
       = map_option (\<lambda>b. Hidden) (prev_chapter_footer page)
   \<and> next_chapter_footer (snd (showBasicChapterInfo (Some v) mangaTitle chapterTitleText page))
       = map_option (\<lambda>b. Hidden) (next_chapter_footer page)"
  by (simp add: showBasicChapterInfo_def Let_def updateChapterNavigation_def setButton_def
           split: option.splits)

text \<open>
  Claim C1, at an input where the code departs from it. The reader is opened on a chapter
  while the stored chapter list is empty; all elements of the page exist, the chapter
  images are in place, and the four controls are as the markup has them, here enabled
  with a placeholder link. The claim asks for "not found" with both neighbours null,
  that is, for the basic title and hidden controls. The code throws a
  \<^verbatim>\<open>ReferenceError\<close> in \<open>showBasicChapterInfo\<close>: the controls are left as they were,
  and the \<^verbatim>\<open>catch\<close> of \<open>handleReaderPage\<close> replaces the chapter images by the error
  state.
\<close>

theorem handleReaderPage_absent_url_fails:
  "handleReaderPage None (\<lambda>u. ''Solo Leveling'') (\<lambda>u. ''Chapter 5'') ''AsuraScanz''
     [] ''https://asurascanz.com/solo-leveling/chapter-5''
     \<lparr>document_title = ''Reader'', reader_title = Some ''Loading'',
      prev_chapter_header = Some (Enabled ''#'' []),
      next_chapter_header = Some (Enabled ''#'' []),
      prev_chapter_footer = Some (Enabled ''#'' []),
      next_chapter_footer = Some (Enabled ''#'' []),
      end_of_chapter_nav = Some False,
      reader_content = Elements [''page-1.jpg'', ''page-2.jpg'']\<rparr>
   = \<lparr>document_title = ''Chapter 5 - Solo Leveling - ManhwaVerse'',
      reader_title = Some ''Solo Leveling - Chapter 5'',
      prev_chapter_header = Some (Enabled ''#'' []),
      next_chapter_header = Some (Enabled ''#'' []),
      prev_chapter_footer = Some (Enabled ''#'' []),
      next_chapter_footer = Some (Enabled ''#'' []),
      end_of_chapter_nav = Some False,
      reader_content = ErrorState (FailedToLoadChapter ReferenceError)\<rparr>"
  by (simp add: handleReaderPage_def chapterNavigation_def showBasicChapterInfo_def Let_def)

section \<open>Properties of the chapter image loading\<close>

lemma displayChapterImages_elements:
  "urls \<noteq> [] \<Longrightarrow>
   displayChapterImages (Some urls) =
     Elements (map immediateImage (enumerate 0 (take 10 urls))
               @ map preloadedImage (enumerate 0 (drop 10 urls)))"
  by (simp add: displayChapterImages_def Let_def slice_def preloadRemainingImages_def)

lemma chapter_image_nth:
  assumes "i < length urls"
  shows "(map immediateImage (enumerate 0 (take 10 urls))
          @ map preloadedImage (enumerate 0 (drop 10 urls))) ! i =
         (if i < 10 then immediateImage (i, urls ! i) else preloadedImage (i - 10, urls ! i))"
proof (cases "i < 10")
  case True
  then have "i < length (map immediateImage (enumerate 0 (take 10 urls)))"
    using assms by simp
  then show ?thesis using True assms by (simp add: nth_append nth_enumerate_eq)
next
  case False
  then have len: "length (map immediateImage (enumerate 0 (take 10 urls))) = 10"
    using assms by simp
  have "i - 10 < length (drop 10 urls)" using False assms by simp
  then show ?thesis using False assms len by (simp add: nth_append nth_enumerate_eq)
qed

text \<open>
  The scheduling half of claim C7 holds: one element per URL, in order; the first
  \<open>min N 10\<close> with high fetch priority and the others with low; every one requested at
  once and eagerly; the page numbers run from 1.
\<close>

lemma displayChapterImages_schedule:
  assumes "urls \<noteq> []"
  obtains imgs where "displayChapterImages (Some urls) = Elements imgs"
    and "map src imgs = urls"
    and "\<forall>i < length urls. fetchPriority (imgs ! i) = (if i < 10 then High else Low)
            \<and> requested (imgs ! i) \<and> eager (imgs ! i) \<and> page_no (imgs ! i) = i + 1
            \<and> \<not> class_loaded (imgs ! i) \<and> \<not> class_error (imgs ! i)"
    and "length (filter (\<lambda>img. fetchPriority img = High) imgs) = min (length urls) 10"
    and "length (filter (\<lambda>img. fetchPriority img = Low) imgs) = length urls - min (length urls) 10"
proof -
  define imgs where "imgs = map immediateImage (enumerate 0 (take 10 urls))
                            @ map preloadedImage (enumerate 0 (drop 10 urls))"
  have e: "displayChapterImages (Some urls) = Elements imgs"
    using assms by (simp add: displayChapterImages_elements imgs_def)
  have "map src imgs = take 10 urls @ drop 10 urls"
    unfolding imgs_def
    by (simp add: immediateImage_def preloadedImage_def comp_def enumerate_eq_zip
          del: append_take_drop_id)
  then have s: "map src imgs = urls" by simp
  have n: "\<forall>i < length urls. fetchPriority (imgs ! i) = (if i < 10 then High else Low)
            \<and> requested (imgs ! i) \<and> eager (imgs ! i) \<and> page_no (imgs ! i) = i + 1
            \<and> \<not> class_loaded (imgs ! i) \<and> \<not> class_error (imgs ! i)"
    unfolding imgs_def
    by (auto simp: chapter_image_nth immediateImage_def preloadedImage_def)
  have h1: "filter (\<lambda>img. fetchPriority img = High) (map immediateImage ps) = map immediateImage ps"
    for ps :: "(nat \<times> string) list"
    by (induction ps) (simp_all add: immediateImage_def)
  have h2: "filter (\<lambda>img. fetchPriority img = High) (map preloadedImage ps) = []"
    for ps :: "(nat \<times> string) list"
    by (induction ps) (simp_all add: preloadedImage_def)
  have l1: "filter (\<lambda>img. fetchPriority img = Low) (map immediateImage ps) = []"
    for ps :: "(nat \<times> string) list"
    by (induction ps) (simp_all add: immediateImage_def)
  have l2: "filter (\<lambda>img. fetchPriority img = Low) (map preloadedImage ps) = map preloadedImage ps"
    for ps :: "(nat \<times> string) list"
    by (induction ps) (simp_all add: preloadedImage_def)
  have h: "length (filter (\<lambda>img. fetchPriority img = High) imgs) = min (length urls) 10"
    unfolding imgs_def by (simp add: h1 h2)
  have l: "length (filter (\<lambda>img. fetchPriority img = Low) imgs) = length urls - min (length urls) 10"
    unfolding imgs_def by (simp add: l1 l2 min_def)
  show thesis using that[OF e s n h l] .
qed

text \<open>An event on one image leaves every other image as it was, and no handler requests again.\<close>

lemma fire_other: "j \<noteq> i \<Longrightarrow> j < length container \<Longrightarrow> fire handler i container ! j = container ! j"
  by (simp add: fire_def)

lemma fire_length: "length (fire handler i container) = length container"
  by (simp add: fire_def)

lemma onerror_no_retry: "src (onerror img) = src img \<and> requested (onerror img) = requested img
    \<and> class_loaded (onerror img) = class_loaded img"
  by (simp add: onerror_def)

text \<open>On a preloaded image (page 11 and later) a failure is marked and labelled with its page.\<close>

lemma onerror_preloaded:
  "\<not> immediate_load img \<Longrightarrow>
   class_error (onerror img) \<and> textContent (onerror img) = FailedToLoadPage (page_no img)"
  by (simp add: onerror_def)

text \<open>
  Claim C7, at an input where the code departs from it. A chapter of one page whose image
  fails to load: the failure handler of the first ten images only logs a warning, so the
  element is exactly what it was before the failure, without the class \<^verbatim>\<open>error\<close> and
  without any text in place of the page. The handler of the later images does both.
\<close>

theorem displayChapterImages_first_image_failure_unmarked:
  "displayChapterImages (Some [''https://cdn.example/ch1/page-1.jpg'']) =
     Elements [\<lparr>src = ''https://cdn.example/ch1/page-1.jpg'', page_no = 1, immediate_load = True,
                requested = True, eager = True, fetchPriority = High, class_loaded = False,
                class_error = False, textContent = NoText\<rparr>]
   \<and> fire onerror 0
        [\<lparr>src = ''https://cdn.example/ch1/page-1.jpg'', page_no = 1, immediate_load = True,
          requested = True, eager = True, fetchPriority = High, class_loaded = False,
          class_error = False, textContent = NoText\<rparr>] =
       [\<lparr>src = ''https://cdn.example/ch1/page-1.jpg'', page_no = 1, immediate_load = True,
         requested = True, eager = True, fetchPriority = High, class_loaded = False,
         class_error = False, textContent = NoText\<rparr>]"
  by (simp add: displayChapterImages_def Let_def slice_def enumerate_eq_zip immediateImage_def
        fire_def onerror_def)

section \<open>Properties of the homepage load\<close>







section \<open>Properties of the storage manager\<close>

subsection \<open>The generic methods\<close>

lemma keys_distinct:
  "readingHistory_key \<noteq> bookmarks_key" "readingHistory_key \<noteq> readingProgress_key"
  "readingHistory_key \<noteq> userPreferences_key" "bookmarks_key \<noteq> readingProgress_key"
  "bookmarks_key \<noteq> userPreferences_key" "readingProgress_key \<noteq> userPreferences_key"
  by (simp_all add: readingHistory_key_def bookmarks_key_def readingProgress_key_def
        userPreferences_key_def)

lemma get_total: "\<exists>v. get ls key = Inr v"
  by (simp add: get_def split: sum.splits)

lemma get_blocked: "blocked ls \<Longrightarrow> get ls key = Inr JNull"
  by (simp add: get_def get_try_def getItem_def)

lemma get_items:
  "\<not> blocked ls \<Longrightarrow>
   get ls key = Inr (case items ls key of Some (Text v) \<Rightarrow> v | _ \<Rightarrow> JNull)"
  by (simp add: get_def get_try_def getItem_def JSON_parse_def split: option.splits stored.splits)

lemma set_item_cases:
  "set_item ls key v =
     (if \<not> blocked ls \<and> fits ls ((items ls)(key \<mapsto> Text v))
      then (Inr True, ls\<lparr>items := (items ls)(key \<mapsto> Text v)\<rparr>) else (Inr False, ls))"
  by (simp add: set_item_def set_try_def setItem_def JSON_stringify_def)

lemma get_set_item_same:
  "\<not> blocked ls \<Longrightarrow> fits ls ((items ls)(key \<mapsto> Text v)) \<Longrightarrow>
   get (snd (set_item ls key v)) key = Inr v"
  by (simp add: set_item_cases get_items)

lemma get_set_item_other:
  "k \<noteq> key \<Longrightarrow> get (snd (set_item ls key v)) k = get ls k"
  by (simp add: set_item_cases get_def get_try_def getItem_def)

lemma andThen_reading [simp]:
  "andThen (reading ls (Inr v)) f = f v ls" "andThen (reading ls (Inl e)) f = (Inl e, ls)"
  by (simp_all add: andThen_def reading_def)

lemma andThen_pair [simp]:
  "andThen (Inr v, ls) f = f v ls" "andThen (Inl e, ls) f = (Inl e, ls)"
  by (simp_all add: andThen_def)

subsection \<open>Bookmarks\<close>

lemma entryId_obj: "entryId (JObj kvs) = map_of kvs ''id''"
  by (simp add: entryId_def)

lemma entryId_bookmarkOf [simp]: "entryId (bookmarkOf now m) = Some (JStr (manga_title m))"
  by (simp add: bookmarkOf_def entryId_def)

lemma getProp_id_bookmarkOf [simp]:
  "getProp (bookmarkOf now m) ''id'' = Inr (Some (JStr (manga_title m)))"
  by (simp add: bookmarkOf_def)

lemma findIndexById_None:
  "findIndexById ident xs = Inr None \<Longrightarrow> \<forall>x \<in> set xs. entryId x \<noteq> Some (JStr ident)"
  by (induction xs) (auto simp: entryId_def split: sum.splits if_splits option.splits)

lemma storedList_set_item:
  "\<not> blocked ls \<Longrightarrow> fits ls ((items ls)(key \<mapsto> Text (JArr xs))) \<Longrightarrow>
   storedList (snd (set_item ls key (JArr xs))) key = xs"
  by (simp add: storedList_def get_set_item_same js_or_def)

lemma isBookmarked_False:
  assumes "fst (isBookmarked ls t) = Inr False"
  obtains v where "get ls bookmarks_key = Inr v"
    and "js_or v (JArr []) = JArr (storedList ls bookmarks_key)"
    and "findIndexById t (storedList ls bookmarks_key) = Inr None"
proof -
  obtain v where v: "get ls bookmarks_key = Inr v" using get_total by blast
  from assms v obtain bs where bs: "js_or v (JArr []) = JArr bs"
    by (cases "js_or v (JArr [])") (simp_all add: isBookmarked_def)
  have sl: "storedList ls bookmarks_key = bs" using v bs by (simp add: storedList_def)
  from assms v bs have "findIndexById t bs = Inr None"
    by (cases "findIndexById t bs") (auto simp: isBookmarked_def)
  with v bs sl that show thesis by simp
qed

text \<open>
  Claim C4. The title is not bookmarked yet and the storage takes the write. The first
  call returns the bookmark it created and puts it in front of the list; the second call
  with the same title (whatever its source and other members) returns \<^verbatim>\<open>false\<close> and
  leaves the whole storage as the first call left it; the list then holds exactly one
  entry with that id, and \<open>isBookmarked\<close> answers \<^verbatim>\<open>true\<close>.
\<close>

theorem addBookmark_twice:
  assumes "fst (isBookmarked ls (manga_title m)) = Inr False"
    and "\<not> blocked ls" and "\<forall>c. fits ls c"
    and "manga_title m' = manga_title m"
  shows "fst (addBookmark ls t1 m) = Inr (bookmarkOf t1 m)
    \<and> storedList (snd (addBookmark ls t1 m)) bookmarks_key
        = bookmarkOf t1 m # storedList ls bookmarks_key
    \<and> addBookmark (snd (addBookmark ls t1 m)) t2 m'
        = (Inr (JBool False), snd (addBookmark ls t1 m))
    \<and> length (filter (\<lambda>b. entryId b = Some (JStr (manga_title m)))
                 (storedList (snd (addBookmark (snd (addBookmark ls t1 m)) t2 m')) bookmarks_key)) = 1
    \<and> fst (isBookmarked (snd (addBookmark ls t1 m)) (manga_title m)) = Inr True"
proof -
  let ?bs = "storedList ls bookmarks_key"
  let ?b = "bookmarkOf t1 m"
  from assms(1) obtain v where v: "get ls bookmarks_key = Inr v"
    and arr: "js_or v (JArr []) = JArr ?bs"
    and nf: "findIndexById (manga_title m) ?bs = Inr None"
    by (rule isBookmarked_False)
  let ?ls1 = "ls\<lparr>items := (items ls)(bookmarks_key \<mapsto> Text (JArr (?b # ?bs)))\<rparr>"
  have first: "addBookmark ls t1 m = (Inr ?b, ?ls1)"
    using v arr nf assms(2,3) by (simp add: addBookmark_def Let_def set_item_cases)
  have g1: "get ?ls1 bookmarks_key = Inr (JArr (?b # ?bs))"
    using assms(2) by (simp add: get_items)
  have second: "addBookmark ?ls1 t2 m' = (Inr (JBool False), ?ls1)"
    using g1 assms(4) by (simp add: addBookmark_def Let_def js_or_def)
  have sl1: "storedList ?ls1 bookmarks_key = ?b # ?bs"
    using g1 by (simp add: storedList_def js_or_def)
  have "filter (\<lambda>b. entryId b = Some (JStr (manga_title m))) ?bs = []"
    using findIndexById_None[OF nf] by (simp add: filter_empty_conv)
  then have cnt: "length (filter (\<lambda>b. entryId b = Some (JStr (manga_title m))) (?b # ?bs)) = 1"
    by simp
  have ib: "fst (isBookmarked ?ls1 (manga_title m)) = Inr True"
    using g1 by (simp add: isBookmarked_def js_or_def)
  show ?thesis using first second sl1 cnt ib by simp
qed

theorem addBookmark_twice_witness:
  "fst (isBookmarked \<lparr>items = Map.empty, blocked = False, fits = (\<lambda>c. True)\<rparr> ''Solo Leveling'')
     = Inr False
   \<and> addBookmark (snd (addBookmark \<lparr>items = Map.empty, blocked = False, fits = (\<lambda>c. True)\<rparr>
          ''2024-01-01T00:00:00.000Z''
          \<lparr>manga_title = ''Solo Leveling'', cover_image = None, cover_url = Some ''c.jpg'',
           detail_url = Some ''d'', manga_source = Some ''Alpha''\<rparr>))
        ''2024-01-02T00:00:00.000Z''
        \<lparr>manga_title = ''Solo Leveling'', cover_image = None, cover_url = Some ''c2.jpg'',
         detail_url = Some ''d2'', manga_source = Some ''Beta''\<rparr>
     = (Inr (JBool False),
        snd (addBookmark \<lparr>items = Map.empty, blocked = False, fits = (\<lambda>c. True)\<rparr>
          ''2024-01-01T00:00:00.000Z''
          \<lparr>manga_title = ''Solo Leveling'', cover_image = None, cover_url = Some ''c.jpg'',
           detail_url = Some ''d'', manga_source = Some ''Alpha''\<rparr>))"
proof -
  have nb: "fst (isBookmarked \<lparr>items = Map.empty, blocked = False, fits = (\<lambda>c. True)\<rparr>
                  ''Solo Leveling'') = Inr False"
    by (simp add: isBookmarked_def get_items js_or_def)
  show ?thesis
    using nb addBookmark_twice[of "\<lparr>items = Map.empty, blocked = False, fits = (\<lambda>c. True)\<rparr>"
      "\<lparr>manga_title = ''Solo Leveling'', cover_image = None, cover_url = Some ''c.jpg'',
        detail_url = Some ''d'', manga_source = Some ''Alpha''\<rparr>"
      "\<lparr>manga_title = ''Solo Leveling'', cover_image = None, cover_url = Some ''c2.jpg'',
        detail_url = Some ''d2'', manga_source = Some ''Beta''\<rparr>"
      "''2024-01-01T00:00:00.000Z''" "''2024-01-02T00:00:00.000Z''"]
    by simp
qed

subsection \<open>Preferences\<close>

lemma map_of_putProp:
  "map_of (putProp kvs key v) k = (if k = key then Some v else map_of kvs k)"
  by (induction kvs key v rule: putProp.induct) auto

lemma keys_putProp: "set (map fst (putProp kvs key v)) = insert key (set (map fst kvs))"
  by (induction kvs key v rule: putProp.induct) auto

lemma distinct_putProp: "distinct (map fst kvs) \<Longrightarrow> distinct (map fst (putProp kvs key v))"
proof (induction kvs key v rule: putProp.induct)
  case (1 key v)
  then show ?case by simp
next
  case (2 k w kvs key v)
  show ?case
  proof (cases "k = key")
    case True
    with "2.prems" show ?thesis by simp
  next
    case False
    have "k \<notin> set (map fst (putProp kvs key v))"
      using "2.prems" False unfolding keys_putProp by simp
    moreover have "distinct (map fst (putProp kvs key v))"
      using "2.IH"[OF False] "2.prems" by simp
    ultimately show ?thesis using False by simp
  qed
qed

lemma map_of_define_all:
  "map_of (foldl (\<lambda>obj (k, v). putProp obj k v) acc kvs) k =
     (case map_of (rev kvs) k of Some v \<Rightarrow> Some v | None \<Rightarrow> map_of acc k)"
proof (induction kvs arbitrary: acc)
  case Nil
  then show ?case by simp
next
  case (Cons p kvs)
  obtain k' v' where p: "p = (k', v')" by (cases p)
  have "map_of (rev (p # kvs)) k =
          (case map_of (rev kvs) k of Some v \<Rightarrow> Some v | None \<Rightarrow> map_of [(k', v')] k)"
    by (simp add: p map_add_def split: option.splits)
  moreover have "map_of (foldl (\<lambda>obj (k, v). putProp obj k v) acc (p # kvs)) k =
          (case map_of (rev kvs) k of Some v \<Rightarrow> Some v | None \<Rightarrow> map_of (putProp acc k' v') k)"
    using Cons.IH[of "putProp acc k' v'"] by (simp add: p)
  ultimately show ?case
    by (simp add: map_of_putProp split: option.splits)
qed

lemma distinct_define_all:
  "distinct (map fst acc) \<Longrightarrow>
   distinct (map fst (foldl (\<lambda>obj (k, v). putProp obj k v) acc kvs))"
  by (induction kvs arbitrary: acc) (auto simp: distinct_putProp)

lemma map_of_rev_distinct: "distinct (map fst kvs) \<Longrightarrow> map_of (rev kvs) k = map_of kvs k"
proof (induction kvs)
  case Nil
  then show ?case by simp
next
  case (Cons p kvs)
  obtain k' v' where p: "p = (k', v')" by (cases p)
  from Cons.prems p have notin: "k' \<notin> fst ` set kvs" by simp
  then have none: "map_of kvs k' = None" by (simp add: map_of_eq_None_iff)
  have ih: "map_of (rev kvs) k = map_of kvs k" using Cons by simp
  show ?case
  proof (cases "k = k'")
    case True
    then show ?thesis using none ih by (simp add: p map_add_def)
  next
    case False
    then show ?thesis using ih by (simp add: p map_add_def split: option.splits)
  qed
qed

text \<open>The merge of two objects: a key of the second takes its value, any other keeps the first's.\<close>

lemma spreadMerge_objects:
  assumes "distinct (map fst cur)" and "distinct (map fst new)"
  shows "getProp (spreadMerge (JObj cur) (JObj new)) k =
           Inr (case map_of new k of Some v \<Rightarrow> Some v | None \<Rightarrow> map_of cur k)"
proof -
  have "map_of (rev (cur @ new)) k =
          (case map_of (rev new) k of Some v \<Rightarrow> Some v | None \<Rightarrow> map_of (rev cur) k)"
    by (simp add: map_add_def split: option.splits)
  then have "map_of (rev (cur @ new)) k =
          (case map_of new k of Some v \<Rightarrow> Some v | None \<Rightarrow> map_of cur k)"
    using assms by (simp only: map_of_rev_distinct)
  then have a: "map_of (rev (spread (JObj cur) @ spread (JObj new))) k =
          (case map_of new k of Some v \<Rightarrow> Some v | None \<Rightarrow> map_of cur k)"
    by (simp only: spread.simps)
  have b: "map_of (foldl (\<lambda>obj (k, v). putProp obj k v) [] kvs) k = map_of (rev kvs) k"
    for kvs :: "(string \<times> json) list"
    unfolding map_of_define_all by (simp split: option.splits)
  show ?thesis
    unfolding spreadMerge_def getProp.simps b a ..
qed

lemma updatePreferences_result:
  "updatePreferences ls newPreferences =
     (case get ls userPreferences_key of
        Inr found \<Rightarrow>
          (Inr (spreadMerge (js_or found (JObj [])) newPreferences),
           snd (set_item ls userPreferences_key (spreadMerge (js_or found (JObj [])) newPreferences)))
      | Inl e \<Rightarrow> (Inl e, ls))"
  by (cases "get ls userPreferences_key")
     (simp_all add: updatePreferences_def getPreferences_def Let_def set_item_cases)

text \<open>
  Claim C10. The stored preferences are an object \<open>cur\<close>, the partial update is an
  object \<open>new\<close>, and the storage takes the write. The call returns the merge, in which
  a key of \<open>new\<close> has the value \<open>new\<close> gives it and every other key the value it had
  in \<open>cur\<close>; the merge is what is stored afterwards; and whatever is stored under any
  other key is what it was.
\<close>

theorem updatePreferences_merge:
  assumes "get ls userPreferences_key = Inr (JObj cur)"
    and "distinct (map fst cur)" and "distinct (map fst new)"
    and "\<forall>c. fits ls c"
  shows "fst (updatePreferences ls (JObj new)) = Inr (spreadMerge (JObj cur) (JObj new))
    \<and> getProp (spreadMerge (JObj cur) (JObj new)) k =
        Inr (case map_of new k of Some v \<Rightarrow> Some v | None \<Rightarrow> map_of cur k)
    \<and> get (snd (updatePreferences ls (JObj new))) userPreferences_key =
        Inr (spreadMerge (JObj cur) (JObj new))
    \<and> (other \<noteq> userPreferences_key \<longrightarrow>
         items (snd (updatePreferences ls (JObj new))) other = items ls other)"
proof -
  have nb: "\<not> blocked ls"
    using assms(1) get_blocked[of ls userPreferences_key] by auto
  have r: "updatePreferences ls (JObj new) =
             (Inr (spreadMerge (JObj cur) (JObj new)),
              snd (set_item ls userPreferences_key (spreadMerge (JObj cur) (JObj new))))"
    using assms(1) by (simp add: updatePreferences_result js_or_def)
  have w: "get (snd (set_item ls userPreferences_key (spreadMerge (JObj cur) (JObj new))))
             userPreferences_key = Inr (spreadMerge (JObj cur) (JObj new))"
    using nb assms(4) by (simp add: get_set_item_same)
  have f: "other \<noteq> userPreferences_key \<longrightarrow>
             items (snd (set_item ls userPreferences_key (spreadMerge (JObj cur) (JObj new)))) other
               = items ls other"
    by (simp add: set_item_cases)
  show ?thesis
    using r w f spreadMerge_objects[OF assms(2,3), of k] by simp
qed

theorem updatePreferences_merge_witness:
  "get \<lparr>items = [userPreferences_key \<mapsto> Text defaultPreferences], blocked = False,
        fits = (\<lambda>c. True)\<rparr> userPreferences_key
     = Inr (JObj [(''theme'', JStr ''dark''), (''readingMode'', JStr ''long-strip''),
                  (''autoScroll'', JBool False), (''fontSize'', JStr ''medium'')])
   \<and> distinct (map fst [(''theme'', JStr ''dark''), (''readingMode'', JStr ''long-strip''),
                         (''autoScroll'', JBool False), (''fontSize'', JStr ''medium'')])
   \<and> distinct (map fst [(''theme'', JStr ''light'')])
   \<and> fst (updatePreferences \<lparr>items = [userPreferences_key \<mapsto> Text defaultPreferences],
                               blocked = False, fits = (\<lambda>c. True)\<rparr> (JObj [(''theme'', JStr ''light'')]))
       = Inr (JObj [(''theme'', JStr ''light''), (''readingMode'', JStr ''long-strip''),
                    (''autoScroll'', JBool False), (''fontSize'', JStr ''medium'')])
   \<and> items (snd (updatePreferences \<lparr>items = [userPreferences_key \<mapsto> Text defaultPreferences],
                               blocked = False, fits = (\<lambda>c. True)\<rparr> (JObj [(''theme'', JStr ''light'')])))
        bookmarks_key = None"
proof -
  have g: "get \<lparr>items = [userPreferences_key \<mapsto> Text defaultPreferences], blocked = False,
        fits = (\<lambda>c. True)\<rparr> userPreferences_key
     = Inr (JObj [(''theme'', JStr ''dark''), (''readingMode'', JStr ''long-strip''),
                  (''autoScroll'', JBool False), (''fontSize'', JStr ''medium'')])"
    by (simp add: get_items defaultPreferences_def)
  have m: "spreadMerge (JObj [(''theme'', JStr ''dark''), (''readingMode'', JStr ''long-strip''),
                  (''autoScroll'', JBool False), (''fontSize'', JStr ''medium'')])
              (JObj [(''theme'', JStr ''light'')])
           = JObj [(''theme'', JStr ''light''), (''readingMode'', JStr ''long-strip''),
                    (''autoScroll'', JBool False), (''fontSize'', JStr ''medium'')]"
    by (simp add: spreadMerge_def)
  show ?thesis
    using g m keys_distinct
      updatePreferences_merge[of
        "\<lparr>items = [userPreferences_key \<mapsto> Text defaultPreferences], blocked = False,
          fits = (\<lambda>c. True)\<rparr>"
        "[(''theme'', JStr ''dark''), (''readingMode'', JStr ''long-strip''),
          (''autoScroll'', JBool False), (''fontSize'', JStr ''medium'')]"
        "[(''theme'', JStr ''light'')]" "''theme''" bookmarks_key]
    by simp
qed

subsection \<open>Import\<close>

lemma importMember_object:
  assumes "\<not> blocked ls" and "\<forall>c. fits ls c"
  shows "importMember (JObj kvs) member key ls =
           (Inr (), case map_of kvs member of
                      None \<Rightarrow> ls
                    | Some v \<Rightarrow> if truthy v then ls\<lparr>items := (items ls)(key \<mapsto> Text v)\<rparr> else ls)"
  using assms by (simp add: importMember_def set_item_cases split: option.splits)

lemma imported_env [simp]:
  "blocked (imported kvs member key ls) = blocked ls"
  "fits (imported kvs member key ls) = fits ls"
  by (simp_all add: imported_def split: option.splits)

lemma imported_items:
  "items (imported kvs member key ls) k =
     (if k = key then (case map_of kvs member of
                         None \<Rightarrow> items ls k
                       | Some v \<Rightarrow> if truthy v then Some (Text v) else items ls k)
      else items ls k)"
  by (simp add: imported_def split: option.splits)

lemma importData_object:
  assumes "\<not> blocked ls" and "\<forall>c. fits ls c"
  shows "importData ls (JObj kvs) =
           (Inr True,
            imported kvs ''userPreferences'' userPreferences_key
              (imported kvs ''readingProgress'' readingProgress_key
                (imported kvs ''bookmarks'' bookmarks_key
                  (imported kvs ''readingHistory'' readingHistory_key ls))))"
proof -
  have step: "importMember (JObj kvs) member key s = (Inr (), imported kvs member key s)"
    if "\<not> blocked s" "\<forall>c. fits s c" for member key s
    using that by (simp add: importMember_object imported_def)
  show ?thesis
    using assms by (simp add: importData_def importData_try_def step)
qed

text \<open>
  Claim C5 as amended. The bundle is an object whose history and bookmarks payloads are
  arrays and whose preferences payload \<open>p\<close> is any JSON value at all, and the storage
  takes the writes. The import reports success; the stored history and bookmarks are the
  bundle's; and the stored preferences are the payload \<open>p\<close> itself whenever \<open>p\<close> is
  truthy, and are left as they were only when \<open>p\<close> is falsy.
\<close>

theorem importData_writes_each_category:
  assumes "\<not> blocked ls" and "\<forall>c. fits ls c"
    and "map_of kvs ''readingHistory'' = Some (JArr h)"
    and "map_of kvs ''bookmarks'' = Some (JArr b)"
    and "map_of kvs ''userPreferences'' = Some p"
  shows "fst (importData ls (JObj kvs)) = Inr True
    \<and> get (snd (importData ls (JObj kvs))) readingHistory_key = Inr (JArr h)
    \<and> get (snd (importData ls (JObj kvs))) bookmarks_key = Inr (JArr b)
    \<and> get (snd (importData ls (JObj kvs))) userPreferences_key =
        (if truthy p then Inr p else get ls userPreferences_key)"
proof -
  let ?ls' = "imported kvs ''userPreferences'' userPreferences_key
              (imported kvs ''readingProgress'' readingProgress_key
                (imported kvs ''bookmarks'' bookmarks_key
                  (imported kvs ''readingHistory'' readingHistory_key ls)))"
  have r: "importData ls (JObj kvs) = (Inr True, ?ls')"
    using assms(1,2) by (rule importData_object)
  have nb: "\<not> blocked ?ls'" using assms(1) by simp
  have hist: "items ?ls' readingHistory_key = Some (Text (JArr h))"
    using assms(3) keys_distinct by (simp add: imported_items)
  have bm: "items ?ls' bookmarks_key = Some (Text (JArr b))"
    using assms(4) keys_distinct by (simp add: imported_items)
  have pr: "items ?ls' userPreferences_key =
              (if truthy p then Some (Text p) else items ls userPreferences_key)"
    using assms(5) keys_distinct by (simp add: imported_items)
  have "get ?ls' userPreferences_key = (if truthy p then Inr p else get ls userPreferences_key)"
    using nb assms(1) pr by (simp add: get_items)
  then show ?thesis
    using r nb hist bm by (simp add: get_items)
qed

theorem importData_writes_each_category_witness:
  "\<not> blocked \<lparr>items = [userPreferences_key \<mapsto> Text defaultPreferences], blocked = False,
               fits = (\<lambda>c. True)\<rparr>
   \<and> map_of [(''readingHistory'', JArr []), (''bookmarks'', JArr []),
              (''userPreferences'', JNum 0)] ''userPreferences'' = Some (JNum 0)
   \<and> get (snd (importData \<lparr>items = [userPreferences_key \<mapsto> Text defaultPreferences],
                            blocked = False, fits = (\<lambda>c. True)\<rparr>
                 (JObj [(''readingHistory'', JArr []), (''bookmarks'', JArr []),
                        (''userPreferences'', JNum 0)]))) userPreferences_key
       = Inr defaultPreferences
   \<and> get (snd (importData \<lparr>items = [userPreferences_key \<mapsto> Text defaultPreferences],
                            blocked = False, fits = (\<lambda>c. True)\<rparr>
                 (JObj [(''readingHistory'', JArr []), (''bookmarks'', JArr []),
                        (''userPreferences'', JNum 0)]))) bookmarks_key
       = Inr (JArr [])"
  using importData_writes_each_category[of
          "\<lparr>items = [userPreferences_key \<mapsto> Text defaultPreferences], blocked = False,
            fits = (\<lambda>c. True)\<rparr>"
          "[(''readingHistory'', JArr []), (''bookmarks'', JArr []), (''userPreferences'', JNum 0)]"
          "[]" "[]" "JNum 0"]
  by (simp add: get_items)

text \<open>
  Claim C5 as stated fails. The store holds the default preferences; the bundle has an
  empty history, no bookmarks, and the string \<^verbatim>\<open>"corrupted"\<close> where the preferences
  object should be. After the import the stored preferences are that string.
\<close>

theorem importData_overwrites_preferences_counterexample:
  "get \<lparr>items = [userPreferences_key \<mapsto> Text defaultPreferences], blocked = False,
        fits = (\<lambda>c. True)\<rparr> userPreferences_key = Inr defaultPreferences
   \<and> importData \<lparr>items = [userPreferences_key \<mapsto> Text defaultPreferences], blocked = False,
                  fits = (\<lambda>c. True)\<rparr>
        (JObj [(''readingHistory'', JArr []), (''bookmarks'', JArr []),
               (''userPreferences'', JStr ''corrupted'')])
       = (Inr True,
          \<lparr>items = [userPreferences_key \<mapsto> Text defaultPreferences,
                     readingHistory_key \<mapsto> Text (JArr []),
                     bookmarks_key \<mapsto> Text (JArr []),
                     userPreferences_key \<mapsto> Text (JStr ''corrupted'')],
           blocked = False, fits = (\<lambda>c. True)\<rparr>)
   \<and> get (snd (importData \<lparr>items = [userPreferences_key \<mapsto> Text defaultPreferences],
                            blocked = False, fits = (\<lambda>c. True)\<rparr>
                 (JObj [(''readingHistory'', JArr []), (''bookmarks'', JArr []),
                        (''userPreferences'', JStr ''corrupted'')]))) userPreferences_key
       = Inr (JStr ''corrupted'')
   \<and> JStr ''corrupted'' \<noteq> defaultPreferences"
  by (simp add: importData_def importData_try_def importMember_def set_item_cases get_items
        defaultPreferences_def)

subsection \<open>Storage failures\<close>



lemma entryId_Some_getProp: "entryId x = Some i \<Longrightarrow> getProp x ''id'' = Inr (Some i)"
  by (cases "getProp x ''id''") (simp_all add: entryId_def)

lemma findIndexById_entries_ok: "entries_ok xs \<Longrightarrow> \<exists>i. findIndexById t xs = Inr i"
proof (induction xs)
  case Nil
  then show ?case by simp
next
  case (Cons x xs)
  from Cons.prems obtain s where "entryId x = Some (JStr s)"
    by (auto simp: entries_ok_def split: option.splits json.splits)
  then have g: "getProp x ''id'' = Inr (Some (JStr s))" by (rule entryId_Some_getProp)
  from Cons have "\<exists>i. findIndexById t xs = Inr i" by (simp add: entries_ok_def)
  then obtain i where "findIndexById t xs = Inr i" ..
  with g show ?case by (cases i) auto
qed


lemma list_key_ok_cases:
  assumes "list_key_ok ls key"
  obtains v where "get ls key = Inr v" and "js_or v (JArr []) = JArr (storedList ls key)"
    and "entries_ok (storedList ls key)"
proof -
  obtain v where v: "get ls key = Inr v" using get_total by blast
  with assms obtain xs where xs: "js_or v (JArr []) = JArr xs" "entries_ok xs"
    by (cases "js_or v (JArr [])") (simp_all add: list_key_ok_def)
  then have "storedList ls key = xs" using v by (simp add: storedList_def)
  with v xs that show thesis by simp
qed








text \<open>
  \<open>clearAllData\<close> is not covered by the \<^verbatim>\<open>try\<close> blocks of \<open>get\<close> and \<open>set\<close>: when
  access to the storage is denied, its first \<^verbatim>\<open>removeItem\<close> throws.
\<close>

lemma clearAllData_blocked: "blocked ls \<Longrightarrow> clearAllData ls = (Inl SecurityError, ls)"
  by (simp add: clearAllData_def removeKey_def removeItem_def)




subsection \<open>Reading history\<close>

lemma entryId_historyItem [simp]:
  "entryId (historyItem now m c) = Some (JStr (manga_title m @ ''_'' @ chapter_title c))"
  by (simp add: historyItem_def entryId_def)

lemma set_item_env [simp]:
  "blocked (snd (set_item ls key v)) = blocked ls"
  "fits (snd (set_item ls key v)) = fits ls"
  by (simp_all add: set_item_cases)

lemma set_item_items_other:
  "k \<noteq> key \<Longrightarrow> items (snd (set_item ls key v)) k = items ls k"
  by (simp add: set_item_cases)

lemma snd_andThen_reading:
  "snd (andThen (reading ls r) f) = (case r of Inl e \<Rightarrow> ls | Inr v \<Rightarrow> snd (f v ls))"
  by (cases r) simp_all

lemma snd_andThen_return: "snd (andThen m (\<lambda>u ls. (r u, ls))) = snd m"
  by (cases m) (auto simp: andThen_def split: sum.splits)

lemma andThen_set_item:
  "andThen (set_item ls key v) f =
     f (\<not> blocked ls \<and> fits ls ((items ls)(key \<mapsto> Text v))) (snd (set_item ls key v))"
  by (simp add: set_item_cases)

text \<open>\<open>updateReadingProgress\<close> writes under its own key only, and never changes the environment.\<close>

lemma updateReadingProgress_frame:
  "blocked (snd (updateReadingProgress ls now t c)) = blocked ls
   \<and> fits (snd (updateReadingProgress ls now t c)) = fits ls
   \<and> (k \<noteq> readingProgress_key \<longrightarrow> items (snd (updateReadingProgress ls now t c)) k = items ls k)"
  by (simp add: updateReadingProgress_def Let_def snd_andThen_reading andThen_set_item
        set_item_items_other split: sum.splits)

lemma get_cong_items:
  "blocked ls' = blocked ls \<Longrightarrow> items ls' k = items ls k \<Longrightarrow> get ls' k = get ls k"
  by (simp add: get_def get_try_def getItem_def)

text \<open>
  On a list with distinct ids, cutting out the first entry with a given id is the same
  as dropping every entry with that id.
\<close>

lemma splice_first_match:
  assumes "entries_ok h" and "findIndexById t h = Inr r"
  shows "(case r of None \<Rightarrow> h | Some i \<Rightarrow> take i h @ drop (Suc i) h)
           = filter (\<lambda>x. entryId x \<noteq> Some (JStr t)) h"
  using assms
proof (induction h arbitrary: r)
  case Nil
  then show ?case by simp
next
  case (Cons x xs)
  from Cons.prems(1) obtain s where s: "entryId x = Some (JStr s)"
    by (auto simp: entries_ok_def split: option.splits json.splits)
  then have g: "getProp x ''id'' = Inr (Some (JStr s))" by (rule entryId_Some_getProp)
  have ok: "entries_ok xs" using Cons.prems(1) by (simp add: entries_ok_def)
  show ?case
  proof (cases "s = t")
    case True
    then have r: "r = Some 0" using Cons.prems(2) g by simp
    have "Some (JStr t) \<notin> entryId ` set xs"
      using Cons.prems(1) s True by (simp add: entries_ok_def)
    then have "\<forall>y \<in> set xs. entryId y \<noteq> Some (JStr t)"
      by (metis imageI)
    then have "filter (\<lambda>x. entryId x \<noteq> Some (JStr t)) xs = xs"
      by (simp add: filter_id_conv)
    then show ?thesis using r s True by simp
  next
    case False
    from findIndexById_entries_ok[OF ok] obtain r' where r': "findIndexById t xs = Inr r'"
      by blast
    have r: "r = map_option Suc r'"
      using Cons.prems(2) g False r' by (cases r') simp_all
    from Cons.IH[OF ok r'] show ?thesis
      using r s False by (cases r') simp_all
  qed
qed

lemma pushHistory_eq:
  assumes "entries_ok h" and "findIndexById t h = Inr r"
  shows "pushHistory r item h = take 100 (item # filter (\<lambda>x. entryId x \<noteq> Some (JStr t)) h)"
proof -
  have "pushHistory r item h =
          take 100 (item # (case r of None \<Rightarrow> h | Some i \<Rightarrow> take i h @ drop (Suc i) h))"
    by (simp add: pushHistory_def Let_def)
  then show ?thesis using splice_first_match[OF assms] by simp
qed

lemma entries_ok_filter: "entries_ok h \<Longrightarrow> entries_ok (filter P h)"
  by (simp add: entries_ok_def list_all_iff distinct_map_filter)

lemma entries_ok_take: "entries_ok h \<Longrightarrow> entries_ok (take n h)"
proof -
  assume a: "entries_ok h"
  have "set (take n h) \<subseteq> set h" by (rule set_take_subset)
  moreover have "distinct (map entryId (take n h))"
    using a by (simp add: entries_ok_def take_map[symmetric])
  ultimately show ?thesis using a by (auto simp: entries_ok_def list_all_iff)
qed

lemma entries_ok_push:
  assumes "entries_ok h" and "entryId item = Some (JStr t)"
  shows "entries_ok (take 100 (item # filter (\<lambda>x. entryId x \<noteq> Some (JStr t)) h))"
proof -
  have "entries_ok (item # filter (\<lambda>x. entryId x \<noteq> Some (JStr t)) h)"
    using entries_ok_filter[OF assms(1), of "\<lambda>x. entryId x \<noteq> Some (JStr t)"] assms(2)
    by (auto simp: entries_ok_def)
  then show ?thesis by (rule entries_ok_take)
qed

text \<open>
  One call on a store whose history is in order. If the storage takes the write, the new
  history is the new entry in front of the old entries with other ids, cut to 100;
  otherwise it is the old one. The environment is as before.
\<close>

lemma addToHistory_step:
  assumes "list_key_ok ls readingHistory_key"
  shows "storedList (snd (addToHistory ls now m c)) readingHistory_key =
           (if \<not> blocked ls \<and>
               fits ls ((items ls)(readingHistory_key \<mapsto> Text (JArr (take 100 (historyItem now m c #
                  filter (\<lambda>x. entryId x \<noteq> entryId (historyItem now m c))
                    (storedList ls readingHistory_key))))))
            then take 100 (historyItem now m c #
                   filter (\<lambda>x. entryId x \<noteq> entryId (historyItem now m c))
                     (storedList ls readingHistory_key))
            else storedList ls readingHistory_key)"
    and "blocked (snd (addToHistory ls now m c)) = blocked ls"
    and "fits (snd (addToHistory ls now m c)) = fits ls"
proof -
  let ?h = "storedList ls readingHistory_key"
  let ?t = "manga_title m @ ''_'' @ chapter_title c"
  let ?new = "take 100 (historyItem now m c # filter (\<lambda>x. entryId x \<noteq> Some (JStr ?t)) ?h)"
  from assms obtain v where v: "get ls readingHistory_key = Inr v"
    and arr: "js_or v (JArr []) = JArr ?h" and ok: "entries_ok ?h"
    by (rule list_key_ok_cases)
  from findIndexById_entries_ok[OF ok] obtain r where r: "findIndexById ?t ?h = Inr r"
    by blast
  let ?ls1 = "snd (set_item ls readingHistory_key (JArr ?new))"
  have run: "snd (addToHistory ls now m c) =
               snd (updateReadingProgress ?ls1 now (manga_title m) (chapter_title c))"
    using v arr r pushHistory_eq[OF ok r]
    by (simp add: addToHistory_def Let_def andThen_set_item snd_andThen_return)
  have fr: "get (snd (addToHistory ls now m c)) readingHistory_key = get ?ls1 readingHistory_key"
    unfolding run
    using updateReadingProgress_frame[of ?ls1 now "manga_title m" "chapter_title c" readingHistory_key]
      keys_distinct
    by (intro get_cong_items) simp_all
  show "blocked (snd (addToHistory ls now m c)) = blocked ls"
    unfolding run using updateReadingProgress_frame[of ?ls1] by simp
  show "fits (snd (addToHistory ls now m c)) = fits ls"
    unfolding run using updateReadingProgress_frame[of ?ls1] by simp
  have "storedList (snd (addToHistory ls now m c)) readingHistory_key =
          (if \<not> blocked ls \<and> fits ls ((items ls)(readingHistory_key \<mapsto> Text (JArr ?new)))
           then ?new else ?h)"
  proof (cases "\<not> blocked ls \<and> fits ls ((items ls)(readingHistory_key \<mapsto> Text (JArr ?new)))")
    case True
    then have "get ?ls1 readingHistory_key = Inr (JArr ?new)"
      by (simp add: get_set_item_same)
    then show ?thesis using True fr by (simp add: storedList_def js_or_def)
  next
    case False
    then have "?ls1 = ls" by (auto simp: set_item_cases)
    then show ?thesis using False fr by (auto simp: storedList_def)
  qed
  then show "storedList (snd (addToHistory ls now m c)) readingHistory_key =
           (if \<not> blocked ls \<and>
               fits ls ((items ls)(readingHistory_key \<mapsto> Text (JArr (take 100 (historyItem now m c #
                  filter (\<lambda>x. entryId x \<noteq> entryId (historyItem now m c))
                    (storedList ls readingHistory_key))))))
            then take 100 (historyItem now m c #
                   filter (\<lambda>x. entryId x \<noteq> entryId (historyItem now m c))
                     (storedList ls readingHistory_key))
            else storedList ls readingHistory_key)"
    by simp
qed

lemma addToHistory_preserves:
  assumes "list_key_ok ls readingHistory_key"
    and "length (storedList ls readingHistory_key) \<le> 100"
  shows "list_key_ok (snd (addToHistory ls now m c)) readingHistory_key
     \<and> length (storedList (snd (addToHistory ls now m c)) readingHistory_key) \<le> 100"
proof -
  let ?ls' = "snd (addToHistory ls now m c)"
  from assms(1) have ok: "entries_ok (storedList ls readingHistory_key)"
    by (rule list_key_ok_cases)
  have ok': "entries_ok (storedList ?ls' readingHistory_key)"
    unfolding addToHistory_step(1)[OF assms(1)]
    using ok entries_ok_push[OF ok, of "historyItem now m c"] by simp
  have len: "length (storedList ?ls' readingHistory_key) \<le> 100"
    unfolding addToHistory_step(1)[OF assms(1)] using assms(2) by simp
  obtain v where v: "get ?ls' readingHistory_key = Inr v" using get_total by blast
  have shape: "\<exists>xs. js_or v (JArr []) = JArr xs"
  proof (cases "\<not> blocked ls \<and>
               fits ls ((items ls)(readingHistory_key \<mapsto> Text (JArr (take 100 (historyItem now m c #
                  filter (\<lambda>x. entryId x \<noteq> entryId (historyItem now m c))
                    (storedList ls readingHistory_key))))))")
    case True
    let ?new = "take 100 (historyItem now m c #
                  filter (\<lambda>x. entryId x \<noteq> entryId (historyItem now m c))
                    (storedList ls readingHistory_key))"
    have "storedList ?ls' readingHistory_key = ?new"
      using addToHistory_step(1)[OF assms(1), of now m c] True by simp
    then have "storedList ?ls' readingHistory_key \<noteq> []" by simp
    then show ?thesis using v
      by (cases "js_or v (JArr [])") (simp_all add: storedList_def)
  next
    case False
    have "snd (set_item ls readingHistory_key (JArr (take 100 (historyItem now m c #
                  filter (\<lambda>x. entryId x \<noteq> entryId (historyItem now m c))
                    (storedList ls readingHistory_key))))) = ls"
      using False by (auto simp: set_item_cases)
    moreover from assms(1) obtain w where w: "get ls readingHistory_key = Inr w"
      and arr: "js_or w (JArr []) = JArr (storedList ls readingHistory_key)"
      by (rule list_key_ok_cases)
    have "get ?ls' readingHistory_key = get ls readingHistory_key"
    proof (rule get_cong_items)
      show "blocked ?ls' = blocked ls" by (rule addToHistory_step(2)[OF assms(1)])
      show "items ?ls' readingHistory_key = items ls readingHistory_key"
      proof -
        from assms(1) obtain v0 where v0: "get ls readingHistory_key = Inr v0"
          and arr0: "js_or v0 (JArr []) = JArr (storedList ls readingHistory_key)"
          and ok0: "entries_ok (storedList ls readingHistory_key)"
          by (rule list_key_ok_cases)
        from findIndexById_entries_ok[OF ok0] obtain r where
          r: "findIndexById (manga_title m @ ''_'' @ chapter_title c)
                (storedList ls readingHistory_key) = Inr r" by blast
        have "?ls' = snd (updateReadingProgress
                 (snd (set_item ls readingHistory_key
                        (JArr (pushHistory r (historyItem now m c) (storedList ls readingHistory_key)))))
                 now (manga_title m) (chapter_title c))"
          using v0 arr0 r
          by (simp add: addToHistory_def Let_def andThen_set_item snd_andThen_return)
        moreover have "snd (set_item ls readingHistory_key
                        (JArr (pushHistory r (historyItem now m c) (storedList ls readingHistory_key)))) = ls"
          using False pushHistory_eq[OF ok0 r, of "historyItem now m c"]
          by (auto simp: set_item_cases)
        ultimately show ?thesis
          using updateReadingProgress_frame[of ls now "manga_title m" "chapter_title c" readingHistory_key]
            keys_distinct by simp
      qed
    qed
    with v w arr show ?thesis by auto
  qed
  then obtain xs where xs: "js_or v (JArr []) = JArr xs" ..
  then have "storedList ?ls' readingHistory_key = xs" using v by (simp add: storedList_def)
  with ok' v xs have "list_key_ok ?ls' readingHistory_key" by (simp add: list_key_ok_def)
  with len show ?thesis by simp
qed

lemma addAllToHistory_append:
  "addAllToHistory ls (calls @ [(now, m, c)]) =
     snd (addToHistory (addAllToHistory ls calls) now m c)"
  by (induction ls calls rule: addAllToHistory.induct) simp_all

lemma addAllToHistory_preserves:
  assumes "list_key_ok ls readingHistory_key"
    and "length (storedList ls readingHistory_key) \<le> 100"
  shows "list_key_ok (addAllToHistory ls calls) readingHistory_key
     \<and> length (storedList (addAllToHistory ls calls) readingHistory_key) \<le> 100
     \<and> blocked (addAllToHistory ls calls) = blocked ls
     \<and> fits (addAllToHistory ls calls) = fits ls"
  using assms
proof (induction ls calls rule: addAllToHistory.induct)
  case (1 ls)
  then show ?case by simp
next
  case (2 ls now m c calls)
  from addToHistory_preserves[OF "2.prems", of now m c]
  have p: "list_key_ok (snd (addToHistory ls now m c)) readingHistory_key"
    "length (storedList (snd (addToHistory ls now m c)) readingHistory_key) \<le> 100"
    by simp_all
  from "2.IH"[OF p] addToHistory_step(2,3)[OF "2.prems"(1), of now m c]
  show ?case by simp
qed

text \<open>Facts about \<open>recentFirst\<close>: it commutes with dropping an id, and yields distinct ids.\<close>

lemma recentFirst_filter:
  "recentFirst (filter (\<lambda>y. entryId y \<noteq> a) xs) = filter (\<lambda>y. entryId y \<noteq> a) (recentFirst xs)"
proof (induction xs rule: recentFirst.induct)
  case 1
  then show ?case by simp
next
  case (2 x xs)
  have comm: "filter (\<lambda>y. entryId y \<noteq> entryId x) (filter (\<lambda>y. entryId y \<noteq> a) xs)
              = filter (\<lambda>y. entryId y \<noteq> a) (filter (\<lambda>y. entryId y \<noteq> entryId x) xs)"
    by (simp add: conj_commute)
  show ?case
  proof (cases "entryId x = a")
    case True
    then show ?thesis using "2.IH" by simp
  next
    case False
    then show ?thesis using "2.IH" comm by simp
  qed
qed

lemma set_recentFirst: "set (recentFirst xs) \<subseteq> set xs"
proof (induction xs rule: recentFirst.induct)
  case 1
  then show ?case by simp
next
  case (2 x xs)
  then show ?case by auto
qed

lemma distinct_recentFirst: "distinct (map entryId (recentFirst xs))"
proof (induction xs rule: recentFirst.induct)
  case 1
  then show ?case by simp
next
  case (2 x xs)
  have "entryId x \<notin> entryId ` set (recentFirst (filter (\<lambda>y. entryId y \<noteq> entryId x) xs))"
    using set_recentFirst[of "filter (\<lambda>y. entryId y \<noteq> entryId x) xs"] by auto
  with 2 show ?case by simp
qed

text \<open>
  Dropping one id from a list with distinct ids removes at most one entry, so the first
  \<open>n\<close> survivors are already among the first \<open>n + 1\<close> entries.
\<close>

lemma take_filter_take:
  "distinct (map f xs) \<Longrightarrow>
   take n (filter (\<lambda>x. f x \<noteq> a) (take (Suc n) xs)) = take n (filter (\<lambda>x. f x \<noteq> a) xs)"
proof (induction xs arbitrary: n)
  case Nil
  then show ?case by simp
next
  case (Cons x xs)
  show ?case
  proof (cases n)
    case 0
    then show ?thesis by simp
  next
    case (Suc k)
    show ?thesis
    proof (cases "f x = a")
      case True
      then have "a \<notin> f ` set xs" using Cons.prems by auto
      then have all: "\<forall>y \<in> set xs. f y \<noteq> a" by (metis imageI)
      then have e1: "filter (\<lambda>x. f x \<noteq> a) xs = xs" by (simp add: filter_id_conv)
      have "\<forall>y \<in> set (take (Suc k) xs). f y \<noteq> a" using all by (meson in_set_takeD)
      then have e2: "filter (\<lambda>x. f x \<noteq> a) (take (Suc k) xs) = take (Suc k) xs"
        by (simp add: filter_id_conv)
      show ?thesis using True Suc e1 e2 by simp
    next
      case False
      have "take k (filter (\<lambda>x. f x \<noteq> a) (take (Suc k) xs)) = take k (filter (\<lambda>x. f x \<noteq> a) xs)"
        using Cons.IH[of k] Cons.prems by simp
      then show ?thesis using False Suc by simp
    qed
  qed
qed

text \<open>
  With a storage that takes every write, the history after a run of calls on a store
  whose history was empty is determined by the calls alone.
\<close>

lemma addAllToHistory_recentFirst:
  assumes "list_key_ok ls readingHistory_key" and "storedList ls readingHistory_key = []"
    and "\<not> blocked ls" and "\<forall>c. fits ls c"
  shows "storedList (addAllToHistory ls calls) readingHistory_key =
           take 100 (recentFirst (rev (map (\<lambda>(now, m, c). historyItem now m c) calls)))"
proof (induction calls rule: rev_induct)
  case Nil
  then show ?case using assms(2) by simp
next
  case (snoc call calls)
  obtain now m c where call: "call = (now, m, c)" by (cases call)
  let ?ls = "addAllToHistory ls calls"
  let ?D = "recentFirst (rev (map (\<lambda>(now, m, c). historyItem now m c) calls))"
  let ?i = "historyItem now m c"
  have inv: "list_key_ok ?ls readingHistory_key" "blocked ?ls = blocked ls" "fits ?ls = fits ls"
    using addAllToHistory_preserves[of ls calls] assms(1,2) by simp_all
  have "storedList (addAllToHistory ls (calls @ [call])) readingHistory_key =
          take 100 (?i # filter (\<lambda>x. entryId x \<noteq> entryId ?i) (storedList ?ls readingHistory_key))"
    unfolding call addAllToHistory_append
    using addToHistory_step(1)[OF inv(1), of now m c] inv(2,3) assms(3,4) by simp
  also have "\<dots> = ?i # take 99 (filter (\<lambda>x. entryId x \<noteq> entryId ?i) (take (Suc 99) ?D))"
    using snoc.IH by simp
  also have "\<dots> = ?i # take 99 (filter (\<lambda>x. entryId x \<noteq> entryId ?i) ?D)"
    using take_filter_take[OF distinct_recentFirst, of 99 "entryId ?i"] by simp
  also have "\<dots> = take 100 (?i # recentFirst (filter (\<lambda>x. entryId x \<noteq> entryId ?i)
                        (rev (map (\<lambda>(now, m, c). historyItem now m c) calls))))"
    by (simp add: recentFirst_filter)
  also have "\<dots> = take 100 (recentFirst (rev (map (\<lambda>(now, m, c). historyItem now m c)
                        (calls @ [call]))))"
    by (simp add: call)
  finally show ?case .
qed

lemma init_fresh:
  assumes "items ls0 = Map.empty"
  shows "list_key_ok (snd (init ls0)) readingHistory_key
     \<and> storedList (snd (init ls0)) readingHistory_key = []
     \<and> blocked (snd (init ls0)) = blocked ls0 \<and> fits (snd (init ls0)) = fits ls0"
proof -
  have g: "get ls key = Inr JNull" if "items ls key = None" for ls key
    using that by (simp add: get_def get_try_def getItem_def)
  have k: "initKey key v ls = (Inr (), snd (set_item ls key v))" if "items ls key = None" for ls key v
    using g[OF that] by (simp add: initKey_def andThen_set_item)
  let ?l1 = "snd (set_item ls0 readingHistory_key (JArr []))"
  let ?l2 = "snd (set_item ?l1 bookmarks_key (JArr []))"
  let ?l3 = "snd (set_item ?l2 readingProgress_key (JObj []))"
  let ?l4 = "snd (set_item ?l3 userPreferences_key defaultPreferences)"
  have n1: "items ?l1 bookmarks_key = None"
    using assms keys_distinct by (simp add: set_item_items_other)
  have n2: "items ?l2 readingProgress_key = None"
    using assms keys_distinct by (simp add: set_item_items_other)
  have n3: "items ?l3 userPreferences_key = None"
    using assms keys_distinct by (simp add: set_item_items_other)
  have i: "snd (init ls0) = ?l4"
    using assms k[of ls0 readingHistory_key] k[OF n1] k[OF n2] k[OF n3]
    by (simp add: init_def)
  have it: "items ?l4 readingHistory_key = items ?l1 readingHistory_key"
    using keys_distinct by (simp add: set_item_items_other)
  have "get ?l4 readingHistory_key = get ?l1 readingHistory_key"
    using it by (intro get_cong_items) simp_all
  moreover have "get ?l1 readingHistory_key = Inr JNull \<or> get ?l1 readingHistory_key = Inr (JArr [])"
    using assms g[of ls0 readingHistory_key] by (auto simp: set_item_cases get_items)
  ultimately have "get ?l4 readingHistory_key = Inr JNull \<or> get ?l4 readingHistory_key = Inr (JArr [])"
    by simp
  then have "list_key_ok ?l4 readingHistory_key \<and> storedList ?l4 readingHistory_key = []"
    by (auto simp: list_key_ok_def storedList_def js_or_def entries_ok_def)
  then show ?thesis unfolding i by simp
qed

text \<open>
  Claim C2. The browser's storage starts empty, the store is initialised, and any
  sequence of \<open>addToHistory\<close> calls follows; the storage may refuse any of the writes.
  The stored history always consists of entries with string ids, no two of them equal,
  and has at most 100 entries. When the storage takes every write, the history is the
  list of the calls' entries read from the latest call back, each id at its latest
  occurrence only, cut to 100: the most recent first. And one more call, on any store so
  reached, either fails to write and leaves the history as it is, or stores the new
  entry in front of the old entries with other ids, cut to 100.
\<close>

theorem addToHistory_history_invariant:
  assumes "items ls0 = Map.empty"
  shows "entries_ok (storedList (addAllToHistory (snd (init ls0)) calls) readingHistory_key)
    \<and> distinct (map entryId (storedList (addAllToHistory (snd (init ls0)) calls) readingHistory_key))
    \<and> length (storedList (addAllToHistory (snd (init ls0)) calls) readingHistory_key) \<le> 100
    \<and> (\<not> blocked ls0 \<and> (\<forall>c. fits ls0 c) \<longrightarrow>
          storedList (addAllToHistory (snd (init ls0)) calls) readingHistory_key =
            take 100 (recentFirst (rev (map (\<lambda>(now, m, c). historyItem now m c) calls))))
    \<and> storedList (snd (addToHistory (addAllToHistory (snd (init ls0)) calls) now m c))
          readingHistory_key =
        (if \<not> blocked ls0 \<and>
            fits ls0 ((items (addAllToHistory (snd (init ls0)) calls))
                       (readingHistory_key \<mapsto> Text (JArr (take 100 (historyItem now m c #
                          filter (\<lambda>x. entryId x \<noteq> entryId (historyItem now m c))
                            (storedList (addAllToHistory (snd (init ls0)) calls)
                               readingHistory_key))))))
         then take 100 (historyItem now m c #
                filter (\<lambda>x. entryId x \<noteq> entryId (historyItem now m c))
                  (storedList (addAllToHistory (snd (init ls0)) calls) readingHistory_key))
         else storedList (addAllToHistory (snd (init ls0)) calls) readingHistory_key)"
proof -
  let ?s0 = "snd (init ls0)"
  let ?ls = "addAllToHistory ?s0 calls"
  from init_fresh[OF assms]
  have s0: "list_key_ok ?s0 readingHistory_key" "storedList ?s0 readingHistory_key = []"
    "blocked ?s0 = blocked ls0" "fits ?s0 = fits ls0"
    by simp_all
  have inv: "list_key_ok ?ls readingHistory_key"
    "length (storedList ?ls readingHistory_key) \<le> 100"
    "blocked ?ls = blocked ls0" "fits ?ls = fits ls0"
    using addAllToHistory_preserves[of ?s0 calls] s0 by simp_all
  from inv(1) have ok: "entries_ok (storedList ?ls readingHistory_key)"
    by (rule list_key_ok_cases)
  then have dist: "distinct (map entryId (storedList ?ls readingHistory_key))"
    by (simp add: entries_ok_def)
  have rf: "\<not> blocked ls0 \<and> (\<forall>c. fits ls0 c) \<longrightarrow>
          storedList ?ls readingHistory_key =
            take 100 (recentFirst (rev (map (\<lambda>(now, m, c). historyItem now m c) calls)))"
  proof (intro impI, elim conjE)
    assume "\<not> blocked ls0" and "\<forall>c. fits ls0 c"
    then have "\<not> blocked ?s0" and "\<forall>c. fits ?s0 c" using s0(3,4) by simp_all
    with s0(1,2) show "storedList ?ls readingHistory_key =
            take 100 (recentFirst (rev (map (\<lambda>(now, m, c). historyItem now m c) calls)))"
      by (rule addAllToHistory_recentFirst)
  qed
  have step: "storedList (snd (addToHistory ?ls now m c)) readingHistory_key =
        (if \<not> blocked ls0 \<and>
            fits ls0 ((items ?ls)
                       (readingHistory_key \<mapsto> Text (JArr (take 100 (historyItem now m c #
                          filter (\<lambda>x. entryId x \<noteq> entryId (historyItem now m c))
                            (storedList ?ls readingHistory_key))))))
         then take 100 (historyItem now m c #
                filter (\<lambda>x. entryId x \<noteq> entryId (historyItem now m c))
                  (storedList ?ls readingHistory_key))
         else storedList ?ls readingHistory_key)"
    using addToHistory_step(1)[OF inv(1), of now m c] inv(3,4) by simp
  show ?thesis using ok dist inv(2) rf step by blast
qed

theorem addToHistory_history_invariant_witness:
  "items \<lparr>items = Map.empty, blocked = False, fits = (\<lambda>c. True)\<rparr> = Map.empty
   \<and> \<not> blocked \<lparr>items = Map.empty, blocked = False, fits = (\<lambda>c. True)\<rparr>
   \<and> map entryId (storedList (addAllToHistory
         (snd (init \<lparr>items = Map.empty, blocked = False, fits = (\<lambda>c. True)\<rparr>))
         [(''2024-01-01T10:00:00.000Z'',
           \<lparr>manga_title = ''Solo Leveling'', cover_image = None, cover_url = None,
            detail_url = None, manga_source = None\<rparr>,
           \<lparr>chapter_title = ''Chapter 2'', chapter_url = ''u2''\<rparr>),
          (''2024-01-01T11:00:00.000Z'',
           \<lparr>manga_title = ''Tower of God'', cover_image = None, cover_url = None,
            detail_url = None, manga_source = None\<rparr>,
           \<lparr>chapter_title = ''Chapter 1'', chapter_url = ''u1''\<rparr>),
          (''2024-01-01T12:00:00.000Z'',
           \<lparr>manga_title = ''Solo Leveling'', cover_image = None, cover_url = None,
            detail_url = None, manga_source = None\<rparr>,
           \<lparr>chapter_title = ''Chapter 2'', chapter_url = ''u2''\<rparr>)]) readingHistory_key)
       = [Some (JStr ''Solo Leveling_Chapter 2''), Some (JStr ''Tower of God_Chapter 1'')]"
  using addToHistory_history_invariant[of
          "\<lparr>items = Map.empty, blocked = False, fits = (\<lambda>c. True)\<rparr>"
          "[(''2024-01-01T10:00:00.000Z'',
           \<lparr>manga_title = ''Solo Leveling'', cover_image = None, cover_url = None,
            detail_url = None, manga_source = None\<rparr>,
           \<lparr>chapter_title = ''Chapter 2'', chapter_url = ''u2''\<rparr>),
          (''2024-01-01T11:00:00.000Z'',
           \<lparr>manga_title = ''Tower of God'', cover_image = None, cover_url = None,
            detail_url = None, manga_source = None\<rparr>,
           \<lparr>chapter_title = ''Chapter 1'', chapter_url = ''u1''\<rparr>),
          (''2024-01-01T12:00:00.000Z'',
           \<lparr>manga_title = ''Solo Leveling'', cover_image = None, cover_url = None,
            detail_url = None, manga_source = None\<rparr>,
           \<lparr>chapter_title = ''Chapter 2'', chapter_url = ''u2''\<rparr>)]"]
  by simp

end
